theory Spec2Isabelle
  imports Complex_Main "HOL-Library.Word" "HOL-Library.AList" "HOL-Library.Monad_Syntax"
begin

section \<open>Data model\<close>

text \<open>
  The feed client of \<^verbatim>\<open>exchanges/gdax/websocket/client.go\<close> and the snapshot loader
  (\<^verbatim>\<open>SyncBook\<close>, \<^verbatim>\<open>FetchRawBook\<close>) are embedded as state-passing functions.
  Sequence numbers are \<^verbatim>\<open>uint64\<close>, hence 64-bit words. Prices and sizes are
  \<^verbatim>\<open>float64\<close> in the source; the embedding keeps them in a type variable \<open>'f\<close> with
  the syntactic classes \<open>zero\<close> and \<open>minus\<close> only, so that no law of exact arithmetic
  is used anywhere. The library functions \<^verbatim>\<open>strconv.ParseFloat\<close> and the conversion
  \<^verbatim>\<open>uint64(float64)\<close> are parameters (record \<open>env\<close>).
\<close>

type_synonym u64 = "64 word"

text \<open>A decoded JSON value (\<^verbatim>\<open>interface{}\<close> after \<^verbatim>\<open>json.Unmarshal\<close>); an object is
  an association list read with \<open>map_of\<close>.\<close>

datatype 'f json =
    JNull
  | JBool bool
  | JNumber 'f
  | JString string
  | JArray "'f json list"
  | JObject "(string \<times> 'f json) list"

type_synonym 'f jmap = "(string \<times> 'f json) list"

record 'f env =
  ParseFloat :: "string \<Rightarrow> 'f"
  uint64 :: "'f \<Rightarrow> u64"
  SyncInterval :: int
  DiffInterval :: int

record 'f Order =
  OrderID :: string
  Side :: string
  Price :: 'f
  Size :: 'f

text \<open>The argument map of \<^verbatim>\<open>book.Match\<close>: the keys \<^verbatim>\<open>taker_order_id\<close> and \<^verbatim>\<open>time\<close>
  are absent in the call made for a change message.\<close>

record 'f MatchEvent =
  ev_size :: 'f
  ev_price :: 'f
  ev_side :: string
  ev_maker_order_id :: string
  ev_taker_order_id :: "string option"
  ev_time :: "string option"

record 'f Trade =
  Event :: "'f MatchEvent"
  ChangeDerived :: bool

record 'f BookDiff =
  Bid :: "('f \<times> 'f) list"
  Ask :: "('f \<times> 'f) list"

record 'f Book =
  ID :: string
  Sequence :: u64
  Orders :: "'f Order list"
  Trades :: "'f Trade list"
  Diff :: "'f BookDiff"
  DatabaseKey :: string

record PacketHeader =
  Type :: string
  MsgSequence :: u64
  ProductID :: string

text \<open>Persisted record kinds; the binary packing of \<^verbatim>\<open>PackTrade\<close>, \<^verbatim>\<open>PackDiff\<close> and
  \<^verbatim>\<open>PackSync\<close> is abstracted to the value that is packed.\<close>

datatype 'f packet =
    TradePkt "'f Trade"
  | DiffPkt u64 u64 "'f BookDiff"
  | SyncPkt "'f Book"
  | RawSync "'f jmap"

text \<open>The batch state of one product (\<^verbatim>\<open>util.BookBatchWrite\<close>): \<open>Count\<close> and the buffer
  \<open>Batch\<close> of chunks (time key, packed record), both set by \<^verbatim>\<open>AddProduct\<close>, the two
  timers and the start of the next diff range.\<close>

record 'f BookBatchWrite =
  Count :: int
  Batch :: "(int \<times> 'f packet) list"
  LastSync :: int
  LastDiff :: int
  LastDiffSeq :: u64

text \<open>Calls that mutate a book or reach the store, in the order the code makes them.\<close>

datatype 'f effect =
    E_WriteDB string "'f jmap"
  | E_Write string int "'f packet"
  | E_Clear string
  | E_SetSequence string u64
  | E_Add string "'f Order"
  | E_Remove string string
  | E_Match string "'f MatchEvent" bool
  | E_ResetDiff string

text \<open>The client. \<open>DB\<close> is the store as the list of records written (bucket, time key,
  payload), oldest first; \<open>Trace\<close> is the log of effects. The fields \<^verbatim>\<open>LastSync\<close>,
  \<^verbatim>\<open>LastDiff\<close>, \<^verbatim>\<open>LastDiffSeq\<close> and \<^verbatim>\<open>Infos\<close> of the Go struct are never read by the
  functions embedded here and are left out.\<close>

record 'f Client =
  Products :: "string list"
  Books :: "string \<rightharpoonup> 'f Book"
  Socket :: "nat option"
  dbEnabled :: bool
  BatchWrite :: "string \<rightharpoonup> 'f BookBatchWrite"
  DB :: "(string \<times> int \<times> 'f packet) list"
  Trace :: "'f effect list"

text \<open>A computation either returns or panics; a panic carries the state reached.\<close>

datatype 'a exec = Ok 'a | Panic 'a

fun state_of :: "'a exec \<Rightarrow> 'a" where
  "state_of (Ok s) = s"
| "state_of (Panic s) = s"

fun panicked :: "'a exec \<Rightarrow> bool" where
  "panicked (Ok s) = False"
| "panicked (Panic s) = True"

section \<open>The order book (package orderbook)\<close>

text \<open>
  Modelled from the spec: the package \<^verbatim>\<open>exchanges/gdax/orderbook\<close> (type \<^verbatim>\<open>Book\<close> with
  \<^verbatim>\<open>New\<close>, \<^verbatim>\<open>Add\<close>, \<^verbatim>\<open>Remove\<close>, \<^verbatim>\<open>Match\<close>, \<^verbatim>\<open>Clear\<close>, \<^verbatim>\<open>ResetDiff\<close>) is not among the
  sources. The live orders are kept in insertion order; the order index
  (\<^verbatim>\<open>book.OrderMap\<close>) is the lookup by id in that list and the two price ladders are its
  per-side sublists. A diff entry is the affected price with the signed size delta.
\<close>

definition OrderMap :: "'f Book \<Rightarrow> string \<Rightarrow> 'f Order option" where
  "OrderMap b k = find (\<lambda>x. OrderID x = k) (Orders b)"

definition empty_diff :: "'f BookDiff" where
  "empty_diff = \<lparr>Bid = [], Ask = []\<rparr>"

definition orderbook_New :: "string \<Rightarrow> string \<Rightarrow> 'f Book" where
  "orderbook_New name key =
     \<lparr>ID = name, Sequence = 0, Orders = [], Trades = [], Diff = empty_diff,
      DatabaseKey = key\<rparr>"

definition diff_note :: "string \<Rightarrow> 'f \<times> 'f \<Rightarrow> 'f BookDiff \<Rightarrow> 'f BookDiff" where
  "diff_note side entry d =
     (if side = ''buy'' then d\<lparr>Bid := Bid d @ [entry]\<rparr> else d\<lparr>Ask := Ask d @ [entry]\<rparr>)"

text \<open>Modelled from the spec: \<^verbatim>\<open>Add\<close> inserts a new order and ignores an id already
  present.\<close>

definition book_Add :: "'f Book \<Rightarrow> 'f Order \<Rightarrow> 'f Book" where
  "book_Add b x =
     (case OrderMap b (OrderID x) of
        Some y \<Rightarrow> b
      | None \<Rightarrow> b\<lparr>Orders := Orders b @ [x],
                   Diff := diff_note (Side x) (Price x, Size x) (Diff b)\<rparr>)"

text \<open>Modelled from the spec: \<^verbatim>\<open>Remove\<close> deletes the order; an unknown id is a no-op.\<close>

definition book_Remove :: "('f::{zero,minus}) Book \<Rightarrow> string \<Rightarrow> 'f Book" where
  "book_Remove b k =
     (case OrderMap b k of
        None \<Rightarrow> b
      | Some y \<Rightarrow> b\<lparr>Orders := filter (\<lambda>x. OrderID x \<noteq> k) (Orders b),
                     Diff := diff_note (Side y) (Price y, 0 - Size y) (Diff b)\<rparr>)"

text \<open>Modelled from the spec: \<^verbatim>\<open>Match\<close> of an id that is not in the book is a no-op;
  otherwise it reduces the resting maker order by the event's size, deleting it at size
  zero, appends a trade built from the event (flagged when change-derived) and records
  the size delta for the order's side and price.\<close>

definition book_Match :: "('f::{zero,minus}) Book \<Rightarrow> 'f MatchEvent \<Rightarrow> bool \<Rightarrow> 'f Book" where
  "book_Match b ev change =
     (case OrderMap b (ev_maker_order_id ev) of
        None \<Rightarrow> b
      | Some y \<Rightarrow>
          b\<lparr>Orders :=
              (if Size y - ev_size ev = 0
               then filter (\<lambda>x. OrderID x \<noteq> OrderID y) (Orders b)
               else map (\<lambda>x. if OrderID x = OrderID y
                              then x\<lparr>Size := Size x - ev_size ev\<rparr> else x) (Orders b)),
            Trades := Trades b @ [\<lparr>Event = ev, ChangeDerived = change\<rparr>],
            Diff := diff_note (Side y) (Price y, 0 - ev_size ev) (Diff b)\<rparr>)"

text \<open>Modelled from the spec: \<^verbatim>\<open>Clear\<close> empties both ladders and the order index.\<close>

definition book_Clear :: "'f Book \<Rightarrow> 'f Book" where
  "book_Clear b = b\<lparr>Orders := []\<rparr>"

text \<open>Modelled from the spec: \<^verbatim>\<open>ResetDiff\<close> clears the pending depth deltas.\<close>

definition book_ResetDiff :: "'f Book \<Rightarrow> 'f Book" where
  "book_ResetDiff b = b\<lparr>Diff := empty_diff\<rparr>"

section \<open>Persistence helpers (package util, \<^verbatim>\<open>WriteDB\<close>)\<close>

text \<open>Modelled from the spec: \<^verbatim>\<open>BookBatchWrite.Write\<close> (package \<^verbatim>\<open>util\<close>, not among
  the sources) stores the record under the product's bucket, keyed by the time given, at
  once: the record is in the store when the call returns and nothing is put into the
  batch buffer.\<close>

definition batch_Write :: "'f Client \<Rightarrow> int \<Rightarrow> string \<Rightarrow> 'f packet \<Rightarrow> 'f Client" where
  "batch_Write c now key pkt =
     c\<lparr>DB := DB c @ [(key, now, pkt)], Trace := Trace c @ [E_Write key now pkt]\<rparr>"

text \<open>Modelled from the spec: \<^verbatim>\<open>BookBatchWrite.NextSync\<close> is true when the time since the
  last sync exceeds the sync interval, and then resets both timers.\<close>

definition NextSync ::
  "'f env \<Rightarrow> 'f BookBatchWrite \<Rightarrow> int \<Rightarrow> bool \<times> 'f BookBatchWrite" where
  "NextSync E batch now =
     (if now - LastSync batch > SyncInterval E
      then (True, batch\<lparr>LastSync := now, LastDiff := now\<rparr>)
      else (False, batch))"

text \<open>Modelled from the spec: \<^verbatim>\<open>BookBatchWrite.NextDiff\<close> is true when the time since the
  last diff exceeds the diff interval (the emptiness test of the pending diff is made
  by \<^verbatim>\<open>WriteDiff\<close>), and then restarts the diff timer.\<close>

definition NextDiff ::
  "'f env \<Rightarrow> 'f BookBatchWrite \<Rightarrow> int \<Rightarrow> bool \<times> 'f BookBatchWrite" where
  "NextDiff E batch now =
     (if now - LastDiff batch > DiffInterval E
      then (True, batch\<lparr>LastDiff := now\<rparr>)
      else (False, batch))"

text \<open>Modelled from the spec: \<^verbatim>\<open>Client.WriteDB\<close> (not among the sources) persists the
  raw snapshot as a sync record; without a store the call writes nothing.\<close>

definition WriteDB :: "'f Client \<Rightarrow> 'f Book \<Rightarrow> 'f jmap \<Rightarrow> int \<Rightarrow> 'f Client" where
  "WriteDB c book full now =
     c\<lparr>DB := (if dbEnabled c then DB c @ [(DatabaseKey book, now, RawSync full)] else DB c),
       Trace := Trace c @ [E_WriteDB (DatabaseKey book) full]\<rparr>"

definition PackTrade :: "'f Trade \<Rightarrow> 'f packet" where
  "PackTrade t = TradePkt t"

definition PackDiff :: "u64 \<Rightarrow> u64 \<Rightarrow> 'f BookDiff \<Rightarrow> 'f packet" where
  "PackDiff lo hi d = DiffPkt lo hi d"

definition PackSync :: "'f Book \<Rightarrow> 'f packet" where
  "PackSync book = SyncPkt book"

section \<open>Calls on a book, logged\<close>

definition call_Add :: "'f Client \<times> 'f Book \<Rightarrow> 'f Order \<Rightarrow> 'f Client \<times> 'f Book" where
  "call_Add st x =
     (case st of (c, b) \<Rightarrow> (c\<lparr>Trace := Trace c @ [E_Add (ID b) x]\<rparr>, book_Add b x))"

definition call_Remove ::
  "('f::{zero,minus}) Client \<times> 'f Book \<Rightarrow> string \<Rightarrow> 'f Client \<times> 'f Book" where
  "call_Remove st k =
     (case st of (c, b) \<Rightarrow> (c\<lparr>Trace := Trace c @ [E_Remove (ID b) k]\<rparr>, book_Remove b k))"

definition call_Match ::
  "('f::{zero,minus}) Client \<times> 'f Book \<Rightarrow> 'f MatchEvent \<Rightarrow> bool \<Rightarrow> 'f Client \<times> 'f Book" where
  "call_Match st ev change =
     (case st of (c, b) \<Rightarrow>
        (c\<lparr>Trace := Trace c @ [E_Match (ID b) ev change]\<rparr>, book_Match b ev change))"

definition call_Clear :: "'f Client \<times> 'f Book \<Rightarrow> 'f Client \<times> 'f Book" where
  "call_Clear st =
     (case st of (c, b) \<Rightarrow> (c\<lparr>Trace := Trace c @ [E_Clear (ID b)]\<rparr>, book_Clear b))"

definition call_ResetDiff :: "'f Client \<times> 'f Book \<Rightarrow> 'f Client \<times> 'f Book" where
  "call_ResetDiff st =
     (case st of (c, b) \<Rightarrow> (c\<lparr>Trace := Trace c @ [E_ResetDiff (ID b)]\<rparr>, book_ResetDiff b))"

definition set_Sequence :: "'f Client \<times> 'f Book \<Rightarrow> u64 \<Rightarrow> 'f Client \<times> 'f Book" where
  "set_Sequence st n =
     (case st of (c, b) \<Rightarrow>
        (c\<lparr>Trace := Trace c @ [E_SetSequence (ID b) n]\<rparr>, b\<lparr>Sequence := n\<rparr>))"

section \<open>Type assertions\<close>

text \<open>\<^verbatim>\<open>v.(string)\<close> on a map read: \<open>None\<close> stands for the panic of the unchecked
  assertion (key absent, or value not a string).\<close>

definition as_string :: "'f json option \<Rightarrow> string option" where
  "as_string v = (case v of Some (JString s) \<Rightarrow> Some s | _ \<Rightarrow> None)"

definition nth_opt :: "'a list \<Rightarrow> nat \<Rightarrow> 'a option" where
  "nth_opt xs i = (if i < length xs then Some (xs ! i) else None)"

section \<open>client.go\<close>

type_synonym 'f st = "'f Client \<times> 'f Book"

text \<open>Modelled from the spec: \<^verbatim>\<open>orderbook.FetchProductInfo\<close> is not among the sources;
  the database key it yields for a product is the argument \<open>key\<close>.\<close>

definition AddProduct :: "'f Client \<Rightarrow> string \<Rightarrow> string \<Rightarrow> 'f Client" where
  "AddProduct c name key =
     c\<lparr>Products := Products c @ [name],
       Books := (Books c)(name \<mapsto> orderbook_New name key),
       BatchWrite := (BatchWrite c)(name \<mapsto>
          \<lparr>Count = 0, Batch = [], LastSync = 0, LastDiff = 0, LastDiffSeq = 0\<rparr>)\<rparr>"

fun AddProducts :: "'f Client \<Rightarrow> (string \<times> string) list \<Rightarrow> 'f Client" where
  "AddProducts c [] = c"
| "AddProducts c ((name, key) # ps) = AddProducts (AddProduct c name key) ps"

definition New :: "bool \<Rightarrow> (string \<times> string) list \<Rightarrow> 'f Client" where
  "New db products =
     AddProducts
       \<lparr>Products = [], Books = Map.empty, Socket = None, dbEnabled = db,
        BatchWrite = Map.empty, DB = [], Trace = []\<rparr>
       products"

text \<open>\<^verbatim>\<open>Connect\<close>: \<open>d\<close> is the outcome of the dial, \<open>wr\<close> the error (if any) of writing
  the subscribe frame.\<close>

datatype dial = DialFailed string | Dialed nat

definition Connect :: "'f Client \<Rightarrow> dial \<Rightarrow> string option \<Rightarrow> string option \<times> 'f Client" where
  "Connect c d wr =
     (case d of
        DialFailed err \<Rightarrow> (Some err, c)
      | Dialed s \<Rightarrow>
          (let c1 = c\<lparr>Socket := Some s\<rparr>;
               err = wr
           in (None, c1)))"

text \<open>The \<^verbatim>\<open>switch header.Type\<close> of \<^verbatim>\<open>HandleMessage\<close>: the new state and the local
  \<^verbatim>\<open>trade\<close>. Assertions are evaluated in the order of the source, all before the call
  they feed.\<close>

definition apply_message ::
  "('f::{zero,minus}) env \<Rightarrow> 'f st \<Rightarrow> PacketHeader \<Rightarrow> 'f jmap \<Rightarrow> ('f st \<times> 'f Trade option) exec"
where
  "apply_message E st header data =
     (if Type header = ''received'' then Ok (st, None)
      else if Type header = ''open'' then
        (case do {
            price \<leftarrow> as_string (map_of data ''price'');
            sz \<leftarrow> as_string (map_of data ''remaining_size'');
            oid \<leftarrow> as_string (map_of data ''order_id'');
            side \<leftarrow> as_string (map_of data ''side'');
            Some \<lparr>OrderID = oid, Side = side, Price = ParseFloat E price,
                  Size = ParseFloat E sz\<rparr> }
         of None \<Rightarrow> Panic (st, None)
          | Some x \<Rightarrow> Ok (call_Add st x, None))
      else if Type header = ''done'' then
        (case as_string (map_of data ''order_id'') of
           None \<Rightarrow> Panic (st, None)
         | Some oid \<Rightarrow> Ok (call_Remove st oid, None))
      else if Type header = ''match'' then
        (case do {
            price \<leftarrow> as_string (map_of data ''price'');
            sz \<leftarrow> as_string (map_of data ''size'');
            side \<leftarrow> as_string (map_of data ''side'');
            maker \<leftarrow> as_string (map_of data ''maker_order_id'');
            taker \<leftarrow> as_string (map_of data ''taker_order_id'');
            tm \<leftarrow> as_string (map_of data ''time'');
            Some \<lparr>ev_size = ParseFloat E sz, ev_price = ParseFloat E price, ev_side = side,
                  ev_maker_order_id = maker, ev_taker_order_id = Some taker,
                  ev_time = Some tm\<rparr> }
         of None \<Rightarrow> Panic (st, None)
          | Some ev \<Rightarrow>
              (let st1 = call_Match st ev False in
               case Trades (snd st1) of
                 [] \<Rightarrow> Panic (st1, None)
               | t # ts \<Rightarrow> Ok (st1, Some (last (t # ts)))))
      else if Type header = ''change'' then
        (case as_string (map_of data ''order_id'') of
           None \<Rightarrow> Panic (st, None)
         | Some oid \<Rightarrow>
             (case OrderMap (snd st) oid of
                None \<Rightarrow> Ok (st, None)
              | Some known \<Rightarrow>
                  (case do {
                      old_size \<leftarrow> as_string (map_of data ''old_size'');
                      new_size \<leftarrow> as_string (map_of data ''new_size'');
                      price \<leftarrow> as_string (map_of data ''price'');
                      side \<leftarrow> as_string (map_of data ''side'');
                      maker \<leftarrow> as_string (map_of data ''order_id'');
                      Some \<lparr>ev_size = ParseFloat E old_size - ParseFloat E new_size,
                            ev_price = ParseFloat E price, ev_side = side,
                            ev_maker_order_id = maker, ev_taker_order_id = None,
                            ev_time = None\<rparr> }
                   of None \<Rightarrow> Panic (st, None)
                    | Some ev \<Rightarrow> Ok (call_Match st ev True, None))))
      else Ok (st, None))"

definition WriteDiff ::
  "'f st \<Rightarrow> 'f BookBatchWrite \<Rightarrow> int \<Rightarrow> 'f st \<times> 'f BookBatchWrite" where
  "WriteDiff st batch now =
     (case st of (c, book) \<Rightarrow>
        if Bid (Diff book) \<noteq> [] \<or> Ask (Diff book) \<noteq> [] then
          (let pkt = PackDiff (LastDiffSeq batch) (Sequence book) (Diff book);
               c1 = batch_Write c now (DatabaseKey book) pkt;
               st2 = call_ResetDiff (c1, book)
           in (st2, batch\<lparr>LastDiffSeq := Sequence (snd st2) + 1\<rparr>))
        else (st, batch))"

definition WriteSync ::
  "'f st \<Rightarrow> 'f BookBatchWrite \<Rightarrow> int \<Rightarrow> 'f st \<times> 'f BookBatchWrite" where
  "WriteSync st batch now =
     (case st of (c, book) \<Rightarrow>
        (let c1 = batch_Write c now (DatabaseKey book) (PackSync book);
             st2 = call_ResetDiff (c1, book)
         in (st2, batch\<lparr>LastDiffSeq := Sequence (snd st2) + 1\<rparr>)))"

text \<open>\<open>batch\<close> is a pointer into \<^verbatim>\<open>c.BatchWrite\<close>: its final value is put back under the
  book's id.\<close>

definition store_batch :: "'f st \<times> 'f BookBatchWrite \<Rightarrow> 'f st" where
  "store_batch r =
     (case r of ((c, book), batch) \<Rightarrow>
        (c\<lparr>BatchWrite := (BatchWrite c)(ID book \<mapsto> batch)\<rparr>, book))"

text \<open>The \<^verbatim>\<open>if c.dbEnabled\<close> block of \<^verbatim>\<open>HandleMessage\<close>; \<open>now\<close> is \<^verbatim>\<open>time.Now()\<close>. A
  book without batch state gives a nil pointer whose first use panics.\<close>

definition persist ::
  "'f env \<Rightarrow> 'f st \<Rightarrow> 'f Trade option \<Rightarrow> int \<Rightarrow> 'f st exec" where
  "persist E st trade now =
     (case st of (c, book) \<Rightarrow>
        if dbEnabled c then
          (case BatchWrite c (ID book) of
             None \<Rightarrow> Panic st
           | Some batch \<Rightarrow>
               (let c1 = (case trade of
                            Some t \<Rightarrow> batch_Write c now (DatabaseKey book) (PackTrade t)
                          | None \<Rightarrow> c)
                in case NextSync E batch now of
                     (True, batch1) \<Rightarrow> Ok (store_batch (WriteSync (c1, book) batch1 now))
                   | (False, batch1) \<Rightarrow>
                       (case NextDiff E batch1 now of
                          (True, batch2) \<Rightarrow>
                             Ok (store_batch (WriteDiff (c1, book) batch2 now))
                        | (False, batch2) \<Rightarrow> Ok (store_batch ((c1, book), batch2)))))
        else Ok st)"

text \<open>\<^verbatim>\<open>HandleMessage\<close>: \<open>body\<close> is the outcome of \<^verbatim>\<open>json.Unmarshal(message, &data)\<close>;
  on an error (\<open>None\<close>) the error is logged and \<^verbatim>\<open>data\<close> stays the nil map.\<close>

definition HandleMessage ::
  "('f::{zero,minus}) env \<Rightarrow> 'f Client \<Rightarrow> 'f Book \<Rightarrow> PacketHeader \<Rightarrow> 'f jmap option \<Rightarrow> int
     \<Rightarrow> 'f st exec" where
  "HandleMessage E c book header body now =
     (let data = (case body of None \<Rightarrow> [] | Some d \<Rightarrow> d) in
      case apply_message E (c, book) header data of
        Panic (st, trade) \<Rightarrow> Panic st
      | Ok (st, trade) \<Rightarrow> persist E st trade now)"

section \<open>The snapshot loader (\<^verbatim>\<open>SyncBook\<close>, \<^verbatim>\<open>FetchRawBook\<close>)\<close>

text \<open>What the REST endpoint does when asked: \<^verbatim>\<open>http.Get\<close> fails, reading the body
  fails, or the body is read and \<^verbatim>\<open>json.Unmarshal\<close> gives an error or a map.\<close>

datatype 'f rest_reply =
    GetFailed string
  | ReadAllFailed string
  | BodyRead "string + 'f jmap"

definition FetchRawBook :: "'f rest_reply \<Rightarrow> string + 'f jmap" where
  "FetchRawBook reply =
     (case reply of
        GetFailed err \<Rightarrow> Inl err
      | ReadAllFailed err \<Rightarrow> Inl err
      | BodyRead (Inl err) \<Rightarrow> Inl err
      | BodyRead (Inr data) \<Rightarrow> Inr data)"

text \<open>One snapshot entry \<^verbatim>\<open>[price, size, order_id]\<close> as the order the loop body adds;
  \<open>None\<close> stands for the panic of one of its assertions or index reads.\<close>

definition entry_order :: "'f env \<Rightarrow> string \<Rightarrow> 'f json \<Rightarrow> 'f Order option" where
  "entry_order E side e =
     (case e of
        JArray data \<Rightarrow>
          do {
            price \<leftarrow> as_string (nth_opt data 0);
            sz \<leftarrow> as_string (nth_opt data 1);
            oid \<leftarrow> as_string (nth_opt data 2);
            Some \<lparr>OrderID = oid, Side = side, Price = ParseFloat E price,
                  Size = ParseFloat E sz\<rparr> }
      | _ \<Rightarrow> None)"

text \<open>The loop \<^verbatim>\<open>for i := len(xs) - 1; i >= 0; i--\<close>: the counter \<open>n\<close> is \<open>i + 1\<close>, the
  body reads \<open>xs[i]\<close>.\<close>

fun load_side :: "'f env \<Rightarrow> string \<Rightarrow> 'f json list \<Rightarrow> nat \<Rightarrow> 'f st \<Rightarrow> 'f st exec" where
  "load_side E side xs 0 st = Ok st"
| "load_side E side xs (Suc i) st =
     (case entry_order E side (xs ! i) of
        None \<Rightarrow> Panic st
      | Some x \<Rightarrow> load_side E side xs i (call_Add st x))"

text \<open>\<^verbatim>\<open>if xs, ok := full[key].([]interface{}); ok { ... }\<close>\<close>

definition load_key :: "'f env \<Rightarrow> 'f jmap \<Rightarrow> string \<Rightarrow> string \<Rightarrow> 'f st \<Rightarrow> 'f st exec" where
  "load_key E full key side st =
     (case map_of full key of
        Some (JArray xs) \<Rightarrow> load_side E side xs (length xs) st
      | _ \<Rightarrow> Ok st)"

text \<open>\<^verbatim>\<open>SyncBook\<close>: the result is the error returned (if any) with the state, or a
  panic. \<open>now\<close> is the time at which \<^verbatim>\<open>WriteDB\<close> keys its record.\<close>

definition SyncBook ::
  "'f env \<Rightarrow> 'f Book \<Rightarrow> 'f Client \<Rightarrow> 'f rest_reply \<Rightarrow> int \<Rightarrow> (string option \<times> 'f st) exec"
where
  "SyncBook E book client reply now =
     (case FetchRawBook reply of
        Inl err \<Rightarrow> Ok (Some err, (client, book))
      | Inr full0 \<Rightarrow>
          (case map_of full0 ''sequence'' of
             None \<Rightarrow> Ok (None, (client, book))
           | Some seq \<Rightarrow>
               (let full = AList.update ''type'' (JString ''sync'') full0;
                    c1 = WriteDB client book full now;
                    st2 = call_Clear (c1, book)
                in case seq of
                     JNumber x \<Rightarrow>
                       (let st3 = set_Sequence st2 (uint64 E x) in
                        case load_key E full ''bids'' ''buy'' st3 of
                          Panic st4 \<Rightarrow> Panic (None, st4)
                        | Ok st4 \<Rightarrow>
                            (case load_key E full ''asks'' ''sell'' st4 of
                               Panic st5 \<Rightarrow> Panic (None, st5)
                             | Ok st5 \<Rightarrow> Ok (None, st5)))
                   | _ \<Rightarrow> Panic (None, st2))))"

section \<open>The read loop (\<^verbatim>\<open>run\<close>)\<close>

text \<open>What \<^verbatim>\<open>ReadMessage\<close> yields: an error, a non-text frame, or a text frame, seen
  through the two \<^verbatim>\<open>json.Unmarshal\<close> calls made on it (into the header struct and,
  in \<^verbatim>\<open>HandleMessage\<close>, into the map; \<open>None\<close> is an error).\<close>

datatype 'f frame =
    ReadFailed string
  | NonText
  | TextMessage "PacketHeader option" "'f jmap option"

text \<open>One turn of the loop and what the world answers during it.\<close>

record 'f tick =
  Incoming :: "'f frame"
  Now :: int
  Rest :: "'f rest_reply"

datatype 'f loop = Continue "'f Client" | Returned "'f Client" | Crashed "'f Client"

fun client_of :: "'f loop \<Rightarrow> 'f Client" where
  "client_of (Continue c) = c"
| "client_of (Returned c) = c"
| "client_of (Crashed c) = c"

text \<open>The book is a pointer held in \<^verbatim>\<open>c.Books\<close>: its final value is put back.\<close>

definition put_book :: "string \<Rightarrow> 'f st \<Rightarrow> 'f Client" where
  "put_book pid st = (case st of (c, book) \<Rightarrow> c\<lparr>Books := (Books c)(pid \<mapsto> book)\<rparr>)"

text \<open>\<^verbatim>\<open>c.SyncBook(book); continue\<close>: the error returned is dropped.\<close>

definition resync ::
  "'f env \<Rightarrow> 'f Client \<Rightarrow> string \<Rightarrow> 'f Book \<Rightarrow> 'f tick \<Rightarrow> 'f loop" where
  "resync E c pid book t =
     (case SyncBook E book c (Rest t) (Now t) of
        Ok (err, st) \<Rightarrow> Continue (put_book pid st)
      | Panic (err, st) \<Rightarrow> Crashed (put_book pid st))"

definition run_step :: "('f::{zero,minus}) env \<Rightarrow> 'f Client \<Rightarrow> 'f tick \<Rightarrow> 'f loop" where
  "run_step E c t =
     (case Incoming t of
        ReadFailed err \<Rightarrow> Returned c
      | NonText \<Rightarrow> Continue c
      | TextMessage None body \<Rightarrow> Continue c
      | TextMessage (Some header) body \<Rightarrow>
          (case Books c (ProductID header) of
             None \<Rightarrow> Continue c
           | Some book \<Rightarrow>
               if Sequence book = 0 then resync E c (ProductID header) book t
               else if MsgSequence header \<le> Sequence book then Continue c
               else if MsgSequence header \<noteq> Sequence book + 1
                 then resync E c (ProductID header) book t
               else
                 (case HandleMessage E c (book\<lparr>Sequence := MsgSequence header\<rparr>) header body
                         (Now t) of
                    Ok st \<Rightarrow> Continue (put_book (ProductID header) st)
                  | Panic st \<Rightarrow> Crashed (put_book (ProductID header) st))))"

fun run_loop :: "('f::{zero,minus}) env \<Rightarrow> 'f Client \<Rightarrow> 'f tick list \<Rightarrow> 'f loop" where
  "run_loop E c [] = Continue c"
| "run_loop E c (t # ts) =
     (case run_step E c t of
        Continue c1 \<Rightarrow> run_loop E c1 ts
      | Returned c1 \<Rightarrow> Returned c1
      | Crashed c1 \<Rightarrow> Crashed c1)"

text \<open>\<^verbatim>\<open>run\<close> on a finite prefix of what the socket delivers.\<close>

definition run ::
  "('f::{zero,minus}) env \<Rightarrow> 'f Client \<Rightarrow> dial \<Rightarrow> string option \<Rightarrow> 'f tick list \<Rightarrow> 'f loop"
where
  "run E c d wr ts =
     (case Connect c d wr of
        (Some err, c1) \<Rightarrow> Returned c1
      | (None, c1) \<Rightarrow> run_loop E c1 ts)"

section \<open>Sample inputs\<close>

text \<open>A stand-in for \<^verbatim>\<open>strconv.ParseFloat\<close> on plain decimal strings (exact rationals;
  0 on anything else, as the source keeps the zero value when it drops the error), used
  only to run the definitions on concrete messages.\<close>

fun digits_val :: "nat \<Rightarrow> string \<Rightarrow> nat" where
  "digits_val acc [] = acc"
| "digits_val acc (c # cs) = digits_val (acc * 10 + (of_char c - 48)) cs"

definition is_digit :: "char \<Rightarrow> bool" where
  "is_digit c = (48 \<le> (of_char c :: nat) \<and> (of_char c :: nat) \<le> 57)"

definition parse_decimal :: "string \<Rightarrow> rat" where
  "parse_decimal s =
     (let ip = takeWhile (\<lambda>c. c \<noteq> CHR ''.'') s;
          fp = drop 1 (dropWhile (\<lambda>c. c \<noteq> CHR ''.'') s)
      in if ip \<noteq> [] \<and> list_all is_digit (ip @ fp)
         then of_nat (digits_val 0 ip) + of_nat (digits_val 0 fp) / 10 ^ length fp
         else 0)"

definition demo_env :: "rat env" where
  "demo_env =
     \<lparr>ParseFloat = parse_decimal, uint64 = (\<lambda>x. word_of_int \<lfloor>x\<rfloor>),
      SyncInterval = 60000, DiffInterval = 1000\<rparr>"

definition demo_client :: "rat Client" where
  "demo_client = New True [(''BTC-USD'', ''gdax-BTC-USD'')]"

text \<open>The snapshot of the spec's example.\<close>

definition demo_snapshot :: "rat jmap" where
  "demo_snapshot =
     [(''sequence'', JNumber 100),
      (''bids'', JArray [JArray [JString ''10.00'', JString ''2'', JString ''A''],
                         JArray [JString ''9.50'', JString ''1'', JString ''B'']]),
      (''asks'', JArray [JArray [JString ''10.50'', JString ''3'', JString ''C'']])]"

definition demo_book100 :: "rat Book" where
  "demo_book100 =
     \<lparr>ID = ''BTC-USD'', Sequence = 100,
      Orders = [\<lparr>OrderID = ''B'', Side = ''buy'', Price = 19 / 2, Size = 1\<rparr>,
                \<lparr>OrderID = ''A'', Side = ''buy'', Price = 10, Size = 2\<rparr>,
                \<lparr>OrderID = ''C'', Side = ''sell'', Price = 21 / 2, Size = 3\<rparr>],
      Trades = [],
      Diff = \<lparr>Bid = [(19 / 2, 1), (10, 2)], Ask = [(21 / 2, 3)]\<rparr>,
      DatabaseKey = ''gdax-BTC-USD''\<rparr>"

definition demo_synced :: "rat Client" where
  "demo_synced = demo_client\<lparr>Books := [''BTC-USD'' \<mapsto> demo_book100]\<rparr>"

definition demo_header :: "string \<Rightarrow> u64 \<Rightarrow> PacketHeader" where
  "demo_header ty n = \<lparr>Type = ty, MsgSequence = n, ProductID = ''BTC-USD''\<rparr>"

definition demo_open :: "rat jmap" where
  "demo_open =
     [(''type'', JString ''open''), (''product_id'', JString ''BTC-USD''),
      (''price'', JString ''10.00''), (''remaining_size'', JString ''1''),
      (''order_id'', JString ''D''), (''side'', JString ''buy'')]"

definition demo_tick :: "string \<Rightarrow> u64 \<Rightarrow> rat jmap \<Rightarrow> int \<Rightarrow> rat rest_reply \<Rightarrow> rat tick" where
  "demo_tick ty n body now reply =
     \<lparr>Incoming = TextMessage (Some (demo_header ty n)) (Some body), Now = now, Rest = reply\<rparr>"

fun is_crashed :: "'f loop \<Rightarrow> bool" where
  "is_crashed (Crashed c) = True"
| "is_crashed (Continue c) = False"
| "is_crashed (Returned c) = False"

definition demo_open_no_price :: "rat jmap" where
  "demo_open_no_price =
     [(''type'', JString ''open''), (''sequence'', JNumber 101),
      (''product_id'', JString ''BTC-USD''), (''remaining_size'', JString ''1''),
      (''order_id'', JString ''D''), (''side'', JString ''buy'')]"

fun is_trade :: "'f packet \<Rightarrow> bool" where
  "is_trade (TradePkt t) = True"
| "is_trade (DiffPkt a b d) = False"
| "is_trade (SyncPkt b) = False"
| "is_trade (RawSync m) = False"

definition payloads :: "(string \<times> int \<times> 'f packet) list \<Rightarrow> 'f packet list" where
  "payloads rs = map (\<lambda>r. snd (snd r)) rs"

definition demo_change :: "rat jmap" where
  "demo_change =
     [(''type'', JString ''change''), (''product_id'', JString ''BTC-USD''),
      (''order_id'', JString ''A''), (''old_size'', JString ''2''),
      (''new_size'', JString ''1.5''), (''price'', JString ''10.00''),
      (''side'', JString ''buy'')]"

definition demo_change_unknown :: "rat jmap" where
  "demo_change_unknown =
     [(''type'', JString ''change''), (''product_id'', JString ''BTC-USD''),
      (''order_id'', JString ''Z''), (''old_size'', JString ''2''),
      (''new_size'', JString ''1.5''), (''price'', JString ''10.00''),
      (''side'', JString ''buy'')]"

definition demo_change_event :: "rat MatchEvent" where
  "demo_change_event =
     \<lparr>ev_size = 1 / 2, ev_price = 10, ev_side = ''buy'', ev_maker_order_id = ''A'',
      ev_taker_order_id = None, ev_time = None\<rparr>"

definition demo_match :: "rat jmap" where
  "demo_match =
     [(''type'', JString ''match''), (''product_id'', JString ''BTC-USD''),
      (''maker_order_id'', JString ''A''), (''taker_order_id'', JString ''T''),
      (''price'', JString ''10.00''), (''size'', JString ''2''),
      (''side'', JString ''buy''), (''time'', JString ''2017-09-01T00:00:00Z'')]"

definition demo_match_event :: "rat MatchEvent" where
  "demo_match_event =
     \<lparr>ev_size = 2, ev_price = 10, ev_side = ''buy'', ev_maker_order_id = ''A'',
      ev_taker_order_id = Some ''T'', ev_time = Some ''2017-09-01T00:00:00Z''\<rparr>"

definition demo_batch :: "rat BookBatchWrite" where
  "demo_batch = \<lparr>Count = 0, Batch = [], LastSync = 0, LastDiff = 0, LastDiffSeq = 0\<rparr>"

fun is_book_effect :: "'f effect \<Rightarrow> bool" where
  "is_book_effect (E_WriteDB k m) = False"
| "is_book_effect (E_Write k t p) = False"
| "is_book_effect (E_Clear b) = True"
| "is_book_effect (E_SetSequence b n) = True"
| "is_book_effect (E_Add b x) = True"
| "is_book_effect (E_Remove b k) = True"
| "is_book_effect (E_Match b ev ch) = True"
| "is_book_effect (E_ResetDiff b) = True"

definition fetch_fails :: "'f rest_reply \<Rightarrow> bool" where
  "fetch_fails reply = (case FetchRawBook reply of Inl err \<Rightarrow> True | Inr full \<Rightarrow> False)"

definition tag_sync :: "'f jmap \<Rightarrow> 'f jmap" where
  "tag_sync full = AList.update ''type'' (JString ''sync'') full"

definition demo_snapshot_bad_sequence :: "rat jmap" where
  "demo_snapshot_bad_sequence =
     [(''sequence'', JString ''100''),
      (''bids'', JArray [JArray [JString ''10.00'', JString ''2'', JString ''A'']]),
      (''asks'', JArray [])]"

definition demo_snapshot_bad_bids :: "rat jmap" where
  "demo_snapshot_bad_bids =
     [(''sequence'', JNumber 100), (''bids'', JString ''none''), (''asks'', JArray [])]"

definition demo_new_book :: "rat Book" where
  "demo_new_book = orderbook_New ''BTC-USD'' ''gdax-BTC-USD''"

definition demo_failing_ticks :: "rat tick list" where
  "demo_failing_ticks =
     [demo_tick ''open'' 101 demo_open 5 (GetFailed ''down''),
      demo_tick ''open'' 102 demo_open 6 (BodyRead (Inl ''unexpected end of JSON input''))]"

section \<open>Frame properties\<close>

lemma book_Add_frame [simp]:
  "ID (book_Add b x) = ID b" "Sequence (book_Add b x) = Sequence b"
  "DatabaseKey (book_Add b x) = DatabaseKey b" "Trades (book_Add b x) = Trades b"
  by (simp_all add: book_Add_def split: option.splits)

lemma book_Remove_frame [simp]:
  "ID (book_Remove b k) = ID b" "Sequence (book_Remove b k) = Sequence b"
  "DatabaseKey (book_Remove b k) = DatabaseKey b" "Trades (book_Remove b k) = Trades b"
  by (simp_all add: book_Remove_def split: option.splits)

lemma book_Match_frame [simp]:
  "ID (book_Match b ev ch) = ID b" "Sequence (book_Match b ev ch) = Sequence b"
  "DatabaseKey (book_Match b ev ch) = DatabaseKey b"
  by (simp_all add: book_Match_def split: option.splits)

lemma book_Match_Trades:
  "OrderMap b (ev_maker_order_id ev) \<noteq> None
     \<Longrightarrow> Trades (book_Match b ev ch) = Trades b @ [\<lparr>Event = ev, ChangeDerived = ch\<rparr>]"
  by (auto simp: book_Match_def)

lemma book_Clear_frame [simp]:
  "ID (book_Clear b) = ID b" "Sequence (book_Clear b) = Sequence b"
  "DatabaseKey (book_Clear b) = DatabaseKey b" "Trades (book_Clear b) = Trades b"
  "Diff (book_Clear b) = Diff b" "Orders (book_Clear b) = []"
  by (simp_all add: book_Clear_def)

lemma book_ResetDiff_frame [simp]:
  "ID (book_ResetDiff b) = ID b" "Sequence (book_ResetDiff b) = Sequence b"
  "DatabaseKey (book_ResetDiff b) = DatabaseKey b" "Trades (book_ResetDiff b) = Trades b"
  "Orders (book_ResetDiff b) = Orders b" "Diff (book_ResetDiff b) = empty_diff"
  by (simp_all add: book_ResetDiff_def)

lemmas calls_def = call_Add_def call_Remove_def call_Match_def call_Clear_def
  call_ResetDiff_def set_Sequence_def

lemma apply_message_frame:
  "ID (snd (fst (state_of (apply_message E st h d)))) = ID (snd st)"
  "Sequence (snd (fst (state_of (apply_message E st h d)))) = Sequence (snd st)"
  "DatabaseKey (snd (fst (state_of (apply_message E st h d)))) = DatabaseKey (snd st)"
  by (cases st; simp add: apply_message_def calls_def Let_def
        split: option.splits list.splits)+

lemma WriteDiff_frame:
  "ID (snd (fst (WriteDiff st batch now))) = ID (snd st)"
  "Sequence (snd (fst (WriteDiff st batch now))) = Sequence (snd st)"
  "DatabaseKey (snd (fst (WriteDiff st batch now))) = DatabaseKey (snd st)"
  by (cases st; simp add: WriteDiff_def calls_def Let_def)+

lemma WriteSync_frame:
  "ID (snd (fst (WriteSync st batch now))) = ID (snd st)"
  "Sequence (snd (fst (WriteSync st batch now))) = Sequence (snd st)"
  "DatabaseKey (snd (fst (WriteSync st batch now))) = DatabaseKey (snd st)"
  by (cases st; simp add: WriteSync_def calls_def Let_def)+

lemma store_batch_snd [simp]: "snd (store_batch r) = snd (fst r)"
  by (cases r; cases "fst r"; simp add: store_batch_def)

lemma persist_frame:
  "ID (snd (state_of (persist E st tr now))) = ID (snd st)"
  "Sequence (snd (state_of (persist E st tr now))) = Sequence (snd st)"
  "DatabaseKey (snd (state_of (persist E st tr now))) = DatabaseKey (snd st)"
  by (cases st; simp add: persist_def Let_def NextSync_def NextDiff_def
        WriteDiff_frame WriteSync_frame split: option.splits)+

lemma HandleMessage_frame:
  "ID (snd (state_of (HandleMessage E c b h body now))) = ID b"
  "Sequence (snd (state_of (HandleMessage E c b h body now))) = Sequence b"
  "DatabaseKey (snd (state_of (HandleMessage E c b h body now))) = DatabaseKey b"
proof -
  let ?d = "case body of None \<Rightarrow> [] | Some d \<Rightarrow> d"
  let ?r = "apply_message E (c, b) h ?d"
  show "ID (snd (state_of (HandleMessage E c b h body now))) = ID b"
    using apply_message_frame(1) [of E "(c, b)" h ?d]
    by (cases ?r) (auto simp: HandleMessage_def Let_def persist_frame)
  show "Sequence (snd (state_of (HandleMessage E c b h body now))) = Sequence b"
    using apply_message_frame(2) [of E "(c, b)" h ?d]
    by (cases ?r) (auto simp: HandleMessage_def Let_def persist_frame)
  show "DatabaseKey (snd (state_of (HandleMessage E c b h body now))) = DatabaseKey b"
    using apply_message_frame(3) [of E "(c, b)" h ?d]
    by (cases ?r) (auto simp: HandleMessage_def Let_def persist_frame)
qed

lemmas demo_defs = demo_env_def demo_client_def demo_snapshot_def demo_book100_def
  demo_synced_def demo_header_def demo_open_def demo_tick_def New_def AddProduct_def
  orderbook_New_def empty_diff_def parse_decimal_def is_digit_def

lemmas model_defs = run_step_def resync_def SyncBook_def FetchRawBook_def load_key_def
  entry_order_def nth_opt_def as_string_def HandleMessage_def apply_message_def persist_def
  WriteDiff_def WriteSync_def store_batch_def put_book_def NextSync_def NextDiff_def
  batch_Write_def WriteDB_def PackTrade_def PackDiff_def PackSync_def calls_def
  book_Add_def book_Remove_def book_Match_def book_Clear_def book_ResetDiff_def
  OrderMap_def diff_note_def Let_def

section \<open>The sequence-gap policy\<close>

lemma unat_succ: "(b::u64) < h \<Longrightarrow> unat (b + 1) = unat b + 1"
proof -
  assume "b < h"
  then have "unat b < unat h" by (simp add: word_less_nat_alt)
  moreover have "unat h < 2 ^ 64" using unsigned_less [of h] by simp
  ultimately show ?thesis by (simp add: unat_word_ariths)
qed

lemma next_iff: "(b::u64) < h \<Longrightarrow> (h = b + 1) = (unat h = unat b + 1)"
  using unat_succ [of b h] by (simp add: word_unat_eq_iff)

lemma next_less: "unat (h::u64) = unat (b::u64) + 1 \<Longrightarrow> b < h"
  by (simp add: word_less_nat_alt)

lemma put_book_same [simp]: "Books (put_book pid st) pid = Some (snd st)"
  by (cases st) (simp add: put_book_def)

text \<open>
  C1. For a text frame whose header parses and names a known product, the loop body takes
  exactly one of four ways, tested in this order. (1) \<open>book.Sequence = 0\<close>: \<^verbatim>\<open>SyncBook\<close> is
  called on the book and the message is dropped (the outcome is that of the sync alone).
  (2) \<open>header.Sequence \<le> book.Sequence\<close>: the client is left exactly as it was.
  (3) a later message that is not the successor: \<^verbatim>\<open>SyncBook\<close> again, message dropped.
  (4) the successor: \<^verbatim>\<open>HandleMessage\<close> runs on the book with its sequence set to the
  header's, and whether it returns or panics the book's sequence afterwards is the
  header's, one more than before.
\<close>

theorem sequence_gap_policy:
  assumes known: "Books c (ProductID header) = Some book"
    and msg: "Incoming t = TextMessage (Some header) body"
  shows "(Sequence book = 0 \<longrightarrow>
            run_step E c t =
              (case SyncBook E book c (Rest t) (Now t) of
                 Ok (err, st) \<Rightarrow> Continue (put_book (ProductID header) st)
               | Panic (err, st) \<Rightarrow> Crashed (put_book (ProductID header) st)))
       \<and> (Sequence book \<noteq> 0 \<and> MsgSequence header \<le> Sequence book \<longrightarrow>
            run_step E c t = Continue c)
       \<and> (Sequence book \<noteq> 0 \<and> Sequence book < MsgSequence header
            \<and> unat (MsgSequence header) \<noteq> unat (Sequence book) + 1 \<longrightarrow>
            run_step E c t =
              (case SyncBook E book c (Rest t) (Now t) of
                 Ok (err, st) \<Rightarrow> Continue (put_book (ProductID header) st)
               | Panic (err, st) \<Rightarrow> Crashed (put_book (ProductID header) st)))
       \<and> (Sequence book \<noteq> 0 \<and> unat (MsgSequence header) = unat (Sequence book) + 1 \<longrightarrow>
            run_step E c t =
              (case HandleMessage E c (book\<lparr>Sequence := MsgSequence header\<rparr>) header body
                      (Now t) of
                 Ok st \<Rightarrow> Continue (put_book (ProductID header) st)
               | Panic st \<Rightarrow> Crashed (put_book (ProductID header) st))
            \<and> (\<exists>book'. Books (client_of (run_step E c t)) (ProductID header) = Some book'
                  \<and> Sequence book' = MsgSequence header
                  \<and> unat (Sequence book') = unat (Sequence book) + 1))"
proof (intro conjI; rule impI)
  assume "Sequence book = 0"
  then show "run_step E c t =
      (case SyncBook E book c (Rest t) (Now t) of
         Ok (err, st) \<Rightarrow> Continue (put_book (ProductID header) st)
       | Panic (err, st) \<Rightarrow> Crashed (put_book (ProductID header) st))"
    using known msg by (simp add: run_step_def resync_def)
next
  assume "Sequence book \<noteq> 0 \<and> MsgSequence header \<le> Sequence book"
  then show "run_step E c t = Continue c"
    using known msg by (simp add: run_step_def)
next
  assume a: "Sequence book \<noteq> 0 \<and> Sequence book < MsgSequence header
      \<and> unat (MsgSequence header) \<noteq> unat (Sequence book) + 1"
  then have "MsgSequence header \<noteq> Sequence book + 1"
    using next_iff [of "Sequence book" "MsgSequence header"] by simp
  moreover from a have "\<not> MsgSequence header \<le> Sequence book" by (simp add: not_le)
  ultimately show "run_step E c t =
      (case SyncBook E book c (Rest t) (Now t) of
         Ok (err, st) \<Rightarrow> Continue (put_book (ProductID header) st)
       | Panic (err, st) \<Rightarrow> Crashed (put_book (ProductID header) st))"
    using a known msg by (simp add: run_step_def resync_def)
next
  assume a: "Sequence book \<noteq> 0 \<and> unat (MsgSequence header) = unat (Sequence book) + 1"
  then have lt: "Sequence book < MsgSequence header" by (simp add: next_less)
  then have eq: "MsgSequence header = Sequence book + 1"
    using a next_iff [of "Sequence book" "MsgSequence header"] by simp
  from lt have nle: "\<not> MsgSequence header \<le> Sequence book" by (simp add: not_le)
  let ?r = "HandleMessage E c (book\<lparr>Sequence := MsgSequence header\<rparr>) header body (Now t)"
  have step: "run_step E c t =
      (case ?r of
         Ok st \<Rightarrow> Continue (put_book (ProductID header) st)
       | Panic st \<Rightarrow> Crashed (put_book (ProductID header) st))"
    using a known msg nle eq by (simp add: run_step_def)
  have seq: "Sequence (snd (state_of ?r)) = MsgSequence header"
    by (simp add: HandleMessage_frame)
  have "Books (client_of (run_step E c t)) (ProductID header) = Some (snd (state_of ?r))"
    unfolding step by (cases ?r) simp_all
  with seq a have "\<exists>book'. Books (client_of (run_step E c t)) (ProductID header) = Some book'
                  \<and> Sequence book' = MsgSequence header
                  \<and> unat (Sequence book') = unat (Sequence book) + 1"
    by simp
  with step show "run_step E c t =
      (case ?r of
         Ok st \<Rightarrow> Continue (put_book (ProductID header) st)
       | Panic st \<Rightarrow> Crashed (put_book (ProductID header) st))
     \<and> (\<exists>book'. Books (client_of (run_step E c t)) (ProductID header) = Some book'
                  \<and> Sequence book' = MsgSequence header
                  \<and> unat (Sequence book') = unat (Sequence book) + 1)"
    by blast
qed

theorem sequence_gap_policy_witness:
  "Books demo_client ''BTC-USD'' = Some (orderbook_New ''BTC-USD'' ''gdax-BTC-USD'')
   \<and> Books demo_synced ''BTC-USD'' = Some demo_book100
   \<and> the (Books (client_of (run_step demo_env demo_client
         (demo_tick ''open'' 101 demo_open 5 (BodyRead (Inr demo_snapshot))))) ''BTC-USD'')
       = demo_book100
   \<and> run_step demo_env demo_synced
         (demo_tick ''open'' 100 demo_open 5 (BodyRead (Inr demo_snapshot)))
       = Continue demo_synced
   \<and> map OrderID (Orders (the (Books (client_of (run_step demo_env demo_synced
         (demo_tick ''open'' 105 demo_open 5 (BodyRead (Inr demo_snapshot))))) ''BTC-USD'')))
       = [''B'', ''A'', ''C'']
   \<and> Sequence (the (Books (client_of (run_step demo_env demo_synced
         (demo_tick ''open'' 101 demo_open 5 (GetFailed ''down'')))) ''BTC-USD'')) = 101
   \<and> map OrderID (Orders (the (Books (client_of (run_step demo_env demo_synced
         (demo_tick ''open'' 101 demo_open 5 (GetFailed ''down'')))) ''BTC-USD'')))
       = [''B'', ''A'', ''C'', ''D'']"
proof -
  let ?snap = "BodyRead (Inr demo_snapshot) :: rat rest_reply"
  have k0: "Books demo_client (ProductID (demo_header ''open'' 101))
              = Some (orderbook_New ''BTC-USD'' ''gdax-BTC-USD'')"
    by (simp add: demo_defs)
  have k1: "Books demo_synced (ProductID (demo_header ''open'' n)) = Some demo_book100" for n
    by (simp add: demo_defs)
  have m: "Incoming (demo_tick ty n body now reply)
             = TextMessage (Some (demo_header ty n)) (Some body)" for ty n body now reply
    by (simp add: demo_tick_def)
  note p0 = sequence_gap_policy [OF k0 m [of "''open''" 101 demo_open 5 ?snap], where E = demo_env]
  note p1 = sequence_gap_policy [OF k1 m [of "''open''" 100 demo_open 5 ?snap], where E = demo_env]
  note p2 = sequence_gap_policy [OF k1 m [of "''open''" 105 demo_open 5 ?snap], where E = demo_env]
  note p3 = sequence_gap_policy
    [OF k1 m [of "''open''" 101 demo_open 5 "GetFailed ''down''"], where E = demo_env]
  show ?thesis
    using p0 p1 p2 p3 by (simp add: demo_defs model_defs)
qed

lemmas demo_defs2 = demo_change_def demo_change_unknown_def demo_change_event_def
  demo_match_def demo_match_event_def demo_batch_def demo_open_no_price_def

lemma run_step_successor:
  assumes "Books c (ProductID header) = Some book"
    and "Incoming t = TextMessage (Some header) body"
    and "Sequence book \<noteq> 0"
    and "unat (MsgSequence header) = unat (Sequence book) + 1"
  shows "run_step E c t =
           (case HandleMessage E c (book\<lparr>Sequence := MsgSequence header\<rparr>) header body (Now t) of
              Ok st \<Rightarrow> Continue (put_book (ProductID header) st)
            | Panic st \<Rightarrow> Crashed (put_book (ProductID header) st))"
proof -
  from assms(4) have lt: "Sequence book < MsgSequence header" by (simp add: next_less)
  then have "MsgSequence header = Sequence book + 1"
    using assms(4) next_iff [of "Sequence book" "MsgSequence header"] by simp
  moreover from lt have "\<not> MsgSequence header \<le> Sequence book" by (simp add: not_le)
  ultimately show ?thesis using assms(1-3) by (simp add: run_step_def)
qed

section \<open>Connecting\<close>

text \<open>
  C10. Once the dial succeeds \<^verbatim>\<open>Connect\<close> returns nil whatever the outcome of
  writing the subscribe frame: the result is the same for every \<open>wr\<close>, and \<^verbatim>\<open>run\<close> goes on
  to the read loop after a failed subscription exactly as after a successful one.
\<close>

theorem Connect_drops_subscribe_error:
  "Connect c (Dialed s) wr = (None, c\<lparr>Socket := Some s\<rparr>)
   \<and> Connect c (Dialed s) (Some e) = Connect c (Dialed s) None
   \<and> run E c (Dialed s) (Some e) ts = run_loop E (c\<lparr>Socket := Some s\<rparr>) ts"
  by (simp add: Connect_def run_def)

section \<open>Malformed payloads\<close>

text \<open>
  C9. A text frame whose header parses, names a known product and carries the successor
  sequence number, of type \<^verbatim>\<open>open\<close>, whose payload has no \<^verbatim>\<open>price\<close> or a \<^verbatim>\<open>price\<close>
  that is not a string: \<^verbatim>\<open>HandleMessage\<close> panics at the unchecked assertion (with the
  sequence number already advanced) and the loop body crashes instead of continuing.
  A failed \<^verbatim>\<open>json.Unmarshal\<close> of the body changes nothing in the control flow: the
  handler goes on with the empty payload, and for an \<^verbatim>\<open>open\<close> message panics on it.
\<close>

theorem malformed_open_is_fatal:
  assumes "Books c (ProductID header) = Some book"
    and "Incoming t = TextMessage (Some header) (Some data)"
    and "Sequence book \<noteq> 0"
    and "unat (MsgSequence header) = unat (Sequence book) + 1"
    and "Type header = ''open''"
    and "as_string (map_of data ''price'') = None"
  shows "HandleMessage E c (book\<lparr>Sequence := MsgSequence header\<rparr>) header (Some data) (Now t)
           = Panic (c, book\<lparr>Sequence := MsgSequence header\<rparr>)
       \<and> run_step E c t
           = Crashed (put_book (ProductID header) (c, book\<lparr>Sequence := MsgSequence header\<rparr>))
       \<and> HandleMessage E c book header None now = HandleMessage E c book header (Some []) now
       \<and> HandleMessage E c book header None now = Panic (c, book)"
proof -
  have hm: "HandleMessage E c b header (Some data) n = Panic (c, b)" for b n
    using assms(5,6) by (simp add: HandleMessage_def apply_message_def)
  have "as_string (map_of ([] :: 'a jmap) ''price'') = None" by (simp add: as_string_def)
  then have hm0: "HandleMessage E c book header None now = Panic (c, book)"
    using assms(5) by (simp add: HandleMessage_def apply_message_def)
  have "HandleMessage E c book header None now = HandleMessage E c book header (Some []) now"
    by (simp add: HandleMessage_def)
  with hm hm0 run_step_successor [OF assms(1-4), of E] show ?thesis by simp
qed

theorem malformed_open_is_fatal_witness:
  "is_crashed (run_step demo_env demo_synced
      (demo_tick ''open'' 101 demo_open_no_price 5 (GetFailed ''down'')))
   \<and> as_string (map_of demo_open_no_price ''price'') = None
   \<and> HandleMessage demo_env demo_synced demo_book100 (demo_header ''open'' 101) None 5
       = Panic (demo_synced, demo_book100)"
proof -
  have k: "Books demo_synced (ProductID (demo_header ''open'' 101)) = Some demo_book100"
    by (simp add: demo_defs)
  have m: "Incoming (demo_tick ''open'' 101 demo_open_no_price 5 (GetFailed ''down''))
             = TextMessage (Some (demo_header ''open'' 101)) (Some demo_open_no_price)"
    by (simp add: demo_tick_def)
  have s: "Sequence demo_book100 \<noteq> 0"
    "unat (MsgSequence (demo_header ''open'' 101)) = unat (Sequence demo_book100) + 1"
    "Type (demo_header ''open'' 101) = ''open''"
    by (simp_all add: demo_defs)
  have p: "as_string (map_of demo_open_no_price ''price'') = None"
    by (simp add: demo_open_no_price_def as_string_def)
  note T = malformed_open_is_fatal [OF k m s p, where E = demo_env and now = 5]
  from T have "is_crashed (run_step demo_env demo_synced
      (demo_tick ''open'' 101 demo_open_no_price 5 (GetFailed ''down'')))"
    by simp
  moreover from T have "HandleMessage demo_env demo_synced demo_book100
      (demo_header ''open'' 101) None 5 = Panic (demo_synced, demo_book100)"
    by blast
  ultimately show ?thesis using p by blast
qed

section \<open>Checkpoints\<close>

text \<open>
  C5. \<^verbatim>\<open>WriteDiff\<close> writes nothing and changes nothing when the pending diff is empty;
  otherwise it writes one diff record with the range from \<open>batch.LastDiffSeq\<close> to
  \<open>book.Sequence\<close>. After a diff write and after every \<^verbatim>\<open>WriteSync\<close> (which writes the full
  book) the pending diff is empty, the rest of the book is untouched and
  \<open>batch.LastDiffSeq\<close> is \<open>book.Sequence + 1\<close> (in \<^verbatim>\<open>uint64\<close> arithmetic).
\<close>

theorem checkpoint_postconditions:
  "(Bid (Diff book) = [] \<and> Ask (Diff book) = [] \<longrightarrow>
      WriteDiff (c, book) batch now = ((c, book), batch))
   \<and> (Bid (Diff book) \<noteq> [] \<or> Ask (Diff book) \<noteq> [] \<longrightarrow>
      DB (fst (fst (WriteDiff (c, book) batch now)))
        = DB c @ [(DatabaseKey book, now,
                   DiffPkt (LastDiffSeq batch) (Sequence book) (Diff book))]
      \<and> snd (fst (WriteDiff (c, book) batch now)) = book\<lparr>Diff := empty_diff\<rparr>
      \<and> LastDiffSeq (snd (WriteDiff (c, book) batch now)) = Sequence book + 1)
   \<and> DB (fst (fst (WriteSync (c, book) batch now)))
        = DB c @ [(DatabaseKey book, now, SyncPkt book)]
   \<and> snd (fst (WriteSync (c, book) batch now)) = book\<lparr>Diff := empty_diff\<rparr>
   \<and> LastDiffSeq (snd (WriteSync (c, book) batch now)) = Sequence book + 1"
  by (simp add: WriteDiff_def WriteSync_def Let_def call_ResetDiff_def batch_Write_def
      PackDiff_def PackSync_def book_ResetDiff_def)

theorem checkpoint_postconditions_witness:
  "Bid (Diff demo_book100) \<noteq> []
   \<and> DB (fst (fst (WriteDiff (demo_synced, demo_book100) demo_batch 7)))
       = [(''gdax-BTC-USD'', 7, DiffPkt 0 100 (Diff demo_book100))]
   \<and> Diff (snd (fst (WriteDiff (demo_synced, demo_book100) demo_batch 7))) = empty_diff
   \<and> LastDiffSeq (snd (WriteDiff (demo_synced, demo_book100) demo_batch 7)) = 101
   \<and> WriteDiff (demo_synced, demo_book100\<lparr>Diff := empty_diff\<rparr>) demo_batch 7
       = ((demo_synced, demo_book100\<lparr>Diff := empty_diff\<rparr>), demo_batch)
   \<and> LastDiffSeq (snd (WriteSync (demo_synced, demo_book100) demo_batch 7)) = 101"
proof -
  have d: "Bid (Diff demo_book100) \<noteq> []" by (simp add: demo_book100_def)
  have e: "Bid (Diff (demo_book100\<lparr>Diff := empty_diff\<rparr>)) = []
           \<and> Ask (Diff (demo_book100\<lparr>Diff := empty_diff\<rparr>)) = []"
    by (simp add: empty_diff_def)
  have v: "DB demo_synced = []" "DatabaseKey demo_book100 = ''gdax-BTC-USD''"
    "LastDiffSeq demo_batch = 0" "Sequence demo_book100 = 100"
    by (simp_all add: demo_defs demo_batch_def AddProduct_def)
  note T1 = checkpoint_postconditions
    [where book = demo_book100 and c = demo_synced and batch = demo_batch and now = 7]
  note T2 = checkpoint_postconditions
    [where book = "demo_book100\<lparr>Diff := empty_diff\<rparr>" and c = demo_synced
       and batch = demo_batch and now = 7]
  from T1 d v have a: "DB (fst (fst (WriteDiff (demo_synced, demo_book100) demo_batch 7)))
       = [(''gdax-BTC-USD'', 7, DiffPkt 0 100 (Diff demo_book100))]
   \<and> Diff (snd (fst (WriteDiff (demo_synced, demo_book100) demo_batch 7))) = empty_diff
   \<and> LastDiffSeq (snd (WriteDiff (demo_synced, demo_book100) demo_batch 7)) = 101
   \<and> LastDiffSeq (snd (WriteSync (demo_synced, demo_book100) demo_batch 7)) = 101"
    by simp
  from T2 e have b: "WriteDiff (demo_synced, demo_book100\<lparr>Diff := empty_diff\<rparr>) demo_batch 7
       = ((demo_synced, demo_book100\<lparr>Diff := empty_diff\<rparr>), demo_batch)"
    by blast
  from a b d show ?thesis by blast
qed

section \<open>Change events\<close>

lemma persist_book:
  "snd (state_of (persist E (c, book) tr now)) = book
   \<or> snd (state_of (persist E (c, book) tr now)) = book_ResetDiff book"
  by (simp add: persist_def Let_def NextSync_def NextDiff_def WriteDiff_def WriteSync_def
      call_ResetDiff_def split: option.splits)

lemma persist_disabled: "\<not> dbEnabled c \<Longrightarrow> persist E (c, book) tr now = Ok (c, book)"
  by (simp add: persist_def)

text \<open>
  C8. For a change message whose \<^verbatim>\<open>order_id\<close> is a string: when the id is not in the
  order index the switch leaves client and book exactly as they were and sets no trade,
  so that \<^verbatim>\<open>HandleMessage\<close> is the persistence block alone (which leaves the book as it
  is, or clears its pending diff at a checkpoint as after any message); when the id is
  known and the other fields are strings, the switch makes exactly one call,
  \<^verbatim>\<open>book.Match\<close> with size \<open>old_size - new_size\<close>, the event's price and side, the
  order id as maker, no taker, no time, and the change flag true.
\<close>

theorem change_event_semantics:
  assumes ty: "Type header = ''change''"
    and oid: "as_string (map_of data ''order_id'') = Some oid"
  shows "(OrderMap book oid = None \<longrightarrow>
            apply_message E (c, book) header data = Ok ((c, book), None)
            \<and> HandleMessage E c book header (Some data) now = persist E (c, book) None now
            \<and> (snd (state_of (HandleMessage E c book header (Some data) now)) = book
               \<or> snd (state_of (HandleMessage E c book header (Some data) now))
                    = book_ResetDiff book))
       \<and> (OrderMap book oid \<noteq> None
            \<and> as_string (map_of data ''old_size'') = Some old_size
            \<and> as_string (map_of data ''new_size'') = Some new_size
            \<and> as_string (map_of data ''price'') = Some price
            \<and> as_string (map_of data ''side'') = Some side \<longrightarrow>
            apply_message E (c, book) header data
              = Ok ((c\<lparr>Trace := Trace c @
                        [E_Match (ID book)
                           \<lparr>ev_size = ParseFloat E old_size - ParseFloat E new_size,
                            ev_price = ParseFloat E price, ev_side = side,
                            ev_maker_order_id = oid, ev_taker_order_id = None,
                            ev_time = None\<rparr> True]\<rparr>,
                     book_Match book
                       \<lparr>ev_size = ParseFloat E old_size - ParseFloat E new_size,
                        ev_price = ParseFloat E price, ev_side = side,
                        ev_maker_order_id = oid, ev_taker_order_id = None,
                        ev_time = None\<rparr> True), None))"
proof (intro conjI; rule impI)
  assume u: "OrderMap book oid = None"
  have a: "apply_message E (c, book) header data = Ok ((c, book), None)"
    using ty oid u by (simp add: apply_message_def)
  then have h: "HandleMessage E c book header (Some data) now = persist E (c, book) None now"
    by (simp add: HandleMessage_def)
  show "apply_message E (c, book) header data = Ok ((c, book), None)
     \<and> HandleMessage E c book header (Some data) now = persist E (c, book) None now
     \<and> (snd (state_of (HandleMessage E c book header (Some data) now)) = book
        \<or> snd (state_of (HandleMessage E c book header (Some data) now))
             = book_ResetDiff book)"
    using a h persist_book [of E c book None now] by simp
next
  assume k: "OrderMap book oid \<noteq> None
      \<and> as_string (map_of data ''old_size'') = Some old_size
      \<and> as_string (map_of data ''new_size'') = Some new_size
      \<and> as_string (map_of data ''price'') = Some price
      \<and> as_string (map_of data ''side'') = Some side"
  then obtain y where "OrderMap book oid = Some y" by auto
  with k ty oid show "apply_message E (c, book) header data
      = Ok ((c\<lparr>Trace := Trace c @
                [E_Match (ID book)
                   \<lparr>ev_size = ParseFloat E old_size - ParseFloat E new_size,
                    ev_price = ParseFloat E price, ev_side = side,
                    ev_maker_order_id = oid, ev_taker_order_id = None,
                    ev_time = None\<rparr> True]\<rparr>,
             book_Match book
               \<lparr>ev_size = ParseFloat E old_size - ParseFloat E new_size,
                ev_price = ParseFloat E price, ev_side = side,
                ev_maker_order_id = oid, ev_taker_order_id = None,
                ev_time = None\<rparr> True), None)"
    by (simp add: apply_message_def call_Match_def)
qed

theorem change_event_semantics_witness:
  "as_string (map_of demo_change ''order_id'') = Some ''A''
   \<and> OrderMap demo_book100 ''A'' \<noteq> None
   \<and> apply_message demo_env (demo_synced, demo_book100) (demo_header ''change'' 101) demo_change
       = Ok ((demo_synced\<lparr>Trace := Trace demo_synced @
                 [E_Match ''BTC-USD'' demo_change_event True]\<rparr>,
              book_Match demo_book100 demo_change_event True), None)
   \<and> as_string (map_of demo_change_unknown ''order_id'') = Some ''Z''
   \<and> OrderMap demo_book100 ''Z'' = None
   \<and> apply_message demo_env (demo_synced, demo_book100) (demo_header ''change'' 101)
        demo_change_unknown = Ok ((demo_synced, demo_book100), None)"
proof -
  have ty: "Type (demo_header ''change'' 101) = ''change''" by (simp add: demo_header_def)
  have a: "as_string (map_of demo_change ''order_id'') = Some ''A''"
    "as_string (map_of demo_change ''old_size'') = Some ''2''"
    "as_string (map_of demo_change ''new_size'') = Some ''1.5''"
    "as_string (map_of demo_change ''price'') = Some ''10.00''"
    "as_string (map_of demo_change ''side'') = Some ''buy''"
    by (simp_all add: demo_change_def as_string_def)
  have z: "as_string (map_of demo_change_unknown ''order_id'') = Some ''Z''"
    by (simp add: demo_change_unknown_def as_string_def)
  have k: "OrderMap demo_book100 ''A'' \<noteq> None" "OrderMap demo_book100 ''Z'' = None"
    by (simp_all add: OrderMap_def demo_book100_def)
  have ev: "\<lparr>ev_size = ParseFloat demo_env ''2'' - ParseFloat demo_env ''1.5'',
             ev_price = ParseFloat demo_env ''10.00'', ev_side = ''buy'',
             ev_maker_order_id = ''A'', ev_taker_order_id = None, ev_time = None\<rparr>
            = demo_change_event"
    by (simp add: demo_change_event_def demo_env_def parse_decimal_def is_digit_def)
  have i: "ID demo_book100 = ''BTC-USD''" by (simp add: demo_book100_def)
  note T1 = change_event_semantics [OF ty a(1), where book = demo_book100 and E = demo_env
      and c = demo_synced and old_size = "''2''" and new_size = "''1.5''"
      and price = "''10.00''" and side = "''buy''" and now = 5]
  note T2 = change_event_semantics [OF ty z, where book = demo_book100 and E = demo_env
      and c = demo_synced and now = 5]
  from T1 a k ev i have r1: "apply_message demo_env (demo_synced, demo_book100)
       (demo_header ''change'' 101) demo_change
       = Ok ((demo_synced\<lparr>Trace := Trace demo_synced @
                 [E_Match ''BTC-USD'' demo_change_event True]\<rparr>,
              book_Match demo_book100 demo_change_event True), None)"
    by simp
  from T2 k have r2: "apply_message demo_env (demo_synced, demo_book100)
       (demo_header ''change'' 101) demo_change_unknown = Ok ((demo_synced, demo_book100), None)"
    by blast
  from r1 r2 a z k show ?thesis by blast
qed

section \<open>Trade records\<close>

lemma persist_DB:
  assumes "dbEnabled c" and "BatchWrite c (ID book) = Some batch"
  shows "\<exists>st rest batch'. persist E (c, book) tr now = Ok st
           \<and> DB (fst st) = DB c @ (case tr of None \<Rightarrow> []
                                    | Some t \<Rightarrow> [(DatabaseKey book, now, TradePkt t)]) @ rest
           \<and> length rest \<le> 1 \<and> list_all (\<lambda>p. \<not> is_trade p) (payloads rest)
           \<and> Trades (snd st) = Trades book
           \<and> BatchWrite (fst st) (ID book) = Some batch' \<and> Batch batch' = Batch batch"
  using assms
  by (cases tr)
     (auto simp: persist_def Let_def NextSync_def NextDiff_def WriteDiff_def WriteSync_def
        call_ResetDiff_def store_batch_def batch_Write_def PackTrade_def PackDiff_def
        PackSync_def payloads_def)

lemma persist_no_trade:
  "\<exists>rest. DB (fst (state_of (persist E (c, book) None now))) = DB c @ rest
          \<and> list_all (\<lambda>p. \<not> is_trade p) (payloads rest)"
  by (auto simp: persist_def Let_def NextSync_def NextDiff_def WriteDiff_def WriteSync_def
        call_ResetDiff_def store_batch_def batch_Write_def PackTrade_def PackDiff_def
        PackSync_def payloads_def split: option.splits)

lemma apply_message_client:
  "DB (fst (fst (state_of (apply_message E st h d)))) = DB (fst st)"
  "dbEnabled (fst (fst (state_of (apply_message E st h d)))) = dbEnabled (fst st)"
  "BatchWrite (fst (fst (state_of (apply_message E st h d)))) = BatchWrite (fst st)"
  "Books (fst (fst (state_of (apply_message E st h d)))) = Books (fst st)"
  by (cases st; simp add: apply_message_def calls_def Let_def
        split: option.splits list.splits)+

lemma trade_of_snoc:
  "(case xs @ [t] of [] \<Rightarrow> Panic (s, None) | y # ys \<Rightarrow> Ok (s, Some (last (y # ys))))
     = Ok (s, Some t)"
  by (cases xs) simp_all

lemma apply_message_change_trade:
  "Type h = ''change'' \<Longrightarrow> snd (state_of (apply_message E st h d)) = None"
  by (cases st) (simp add: apply_message_def calls_def split: option.splits)

text \<open>
  C2 (as amended). With persistence enabled and batch state registered for the book:
  whenever a well-formed match message for a resting maker order is processed, the
  handler returns, the book's trade log has grown by the trade built from the message,
  and that trade record is in the store when the handler returns: it is the first record
  written, before the snapshot-or-diff decision and whatever that decision is, followed
  by at most one record, which is not a trade; nothing has been put into the batch
  buffer. A change message never causes a trade record to be written, whatever its
  payload.
\<close>

theorem match_trade_written_first:
  assumes db: "dbEnabled c" and batch: "BatchWrite c (ID book) = Some batch"
  shows "(Type header = ''match''
          \<and> as_string (map_of data ''price'') = Some price
          \<and> as_string (map_of data ''size'') = Some sz
          \<and> as_string (map_of data ''side'') = Some side
          \<and> as_string (map_of data ''maker_order_id'') = Some maker
          \<and> as_string (map_of data ''taker_order_id'') = Some taker
          \<and> as_string (map_of data ''time'') = Some tm
          \<and> OrderMap book maker \<noteq> None \<longrightarrow>
          (\<exists>st rest batch'. HandleMessage E c book header (Some data) now = Ok st
             \<and> Trades (snd st) = Trades book @
                 [\<lparr>Event = \<lparr>ev_size = ParseFloat E sz, ev_price = ParseFloat E price,
                             ev_side = side, ev_maker_order_id = maker,
                             ev_taker_order_id = Some taker, ev_time = Some tm\<rparr>,
                   ChangeDerived = False\<rparr>]
             \<and> DB (fst st) = DB c @
                 (DatabaseKey book, now,
                  TradePkt \<lparr>Event = \<lparr>ev_size = ParseFloat E sz, ev_price = ParseFloat E price,
                                      ev_side = side, ev_maker_order_id = maker,
                                      ev_taker_order_id = Some taker, ev_time = Some tm\<rparr>,
                            ChangeDerived = False\<rparr>) # rest
             \<and> length rest \<le> 1 \<and> list_all (\<lambda>p. \<not> is_trade p) (payloads rest)
             \<and> BatchWrite (fst st) (ID book) = Some batch' \<and> Batch batch' = Batch batch))
       \<and> (Type header = ''change'' \<longrightarrow>
          (\<exists>rest. DB (fst (state_of (HandleMessage E c book header body now))) = DB c @ rest
             \<and> list_all (\<lambda>p. \<not> is_trade p) (payloads rest)))"
proof (intro conjI; rule impI)
  assume a: "Type header = ''match''
          \<and> as_string (map_of data ''price'') = Some price
          \<and> as_string (map_of data ''size'') = Some sz
          \<and> as_string (map_of data ''side'') = Some side
          \<and> as_string (map_of data ''maker_order_id'') = Some maker
          \<and> as_string (map_of data ''taker_order_id'') = Some taker
          \<and> as_string (map_of data ''time'') = Some tm
          \<and> OrderMap book maker \<noteq> None"
  let ?ev = "\<lparr>ev_size = ParseFloat E sz, ev_price = ParseFloat E price,
               ev_side = side, ev_maker_order_id = maker,
               ev_taker_order_id = Some taker, ev_time = Some tm\<rparr>"
  let ?t = "\<lparr>Event = ?ev, ChangeDerived = False\<rparr>"
  let ?c1 = "c\<lparr>Trace := Trace c @ [E_Match (ID book) ?ev False]\<rparr>"
  let ?b1 = "book_Match book ?ev False"
  from a have "OrderMap book (ev_maker_order_id ?ev) \<noteq> None" by simp
  then have tr: "Trades ?b1 = Trades book @ [?t]" by (rule book_Match_Trades)
  have ap: "apply_message E (c, book) header data = Ok ((?c1, ?b1), Some ?t)"
    using a by (simp add: apply_message_def call_Match_def Let_def tr trade_of_snoc)
  then have hm: "HandleMessage E c book header (Some data) now
                   = persist E (?c1, ?b1) (Some ?t) now"
    by (simp add: HandleMessage_def)
  have "dbEnabled ?c1" "BatchWrite ?c1 (ID ?b1) = Some batch"
    using db batch by simp_all
  from persist_DB [OF this, of E "Some ?t" now] hm tr
  show "\<exists>st rest batch'. HandleMessage E c book header (Some data) now = Ok st
             \<and> Trades (snd st) = Trades book @ [?t]
             \<and> DB (fst st) = DB c @ (DatabaseKey book, now, TradePkt ?t) # rest
             \<and> length rest \<le> 1 \<and> list_all (\<lambda>p. \<not> is_trade p) (payloads rest)
             \<and> BatchWrite (fst st) (ID book) = Some batch' \<and> Batch batch' = Batch batch"
    by auto
next
  assume ty: "Type header = ''change''"
  let ?d = "case body of None \<Rightarrow> [] | Some d \<Rightarrow> d"
  let ?r = "apply_message E (c, book) header ?d"
  show "\<exists>rest. DB (fst (state_of (HandleMessage E c book header body now))) = DB c @ rest
             \<and> list_all (\<lambda>p. \<not> is_trade p) (payloads rest)"
  proof (cases ?r)
    case (Panic x)
    then have "HandleMessage E c book header body now = Panic (fst x)"
      by (cases x) (simp add: HandleMessage_def)
    moreover have "DB (fst (fst x)) = DB c"
      using apply_message_client(1) [of E "(c, book)" header ?d] Panic by simp
    ultimately show ?thesis by (simp add: payloads_def)
  next
    case (Ok x)
    then have "snd x = None"
      using apply_message_change_trade [OF ty, of E "(c, book)" ?d] by simp
    with Ok have hm: "HandleMessage E c book header body now = persist E (fst x) None now"
      by (cases x) (simp add: HandleMessage_def)
    have "DB (fst (fst x)) = DB c"
      using apply_message_client(1) [of E "(c, book)" header ?d] Ok by simp
    with hm persist_no_trade [of E "fst (fst x)" "snd (fst x)" now] show ?thesis by simp
  qed
qed

theorem match_trade_written_first_witness:
  "dbEnabled demo_synced
   \<and> BatchWrite demo_synced (ID demo_book100) = Some demo_batch
   \<and> OrderMap demo_book100 ''A'' \<noteq> None
   \<and> as_string (map_of demo_match ''maker_order_id'') = Some ''A''
   \<and> Trades (snd (state_of (HandleMessage demo_env demo_synced
        (demo_book100\<lparr>Sequence := 101\<rparr>) (demo_header ''match'' 101) (Some demo_match) 5)))
       = [\<lparr>Event = demo_match_event, ChangeDerived = False\<rparr>]
   \<and> DB (fst (state_of (HandleMessage demo_env demo_synced (demo_book100\<lparr>Sequence := 101\<rparr>)
        (demo_header ''match'' 101) (Some demo_match) 5)))
       = [(''gdax-BTC-USD'', 5, TradePkt \<lparr>Event = demo_match_event, ChangeDerived = False\<rparr>)]
   \<and> payloads (DB (fst (state_of (HandleMessage demo_env demo_synced
        (demo_book100\<lparr>Sequence := 101\<rparr>) (demo_header ''match'' 101) (Some demo_match) 70000))))
       = [TradePkt \<lparr>Event = demo_match_event, ChangeDerived = False\<rparr>,
          SyncPkt (book_Match (demo_book100\<lparr>Sequence := 101\<rparr>) demo_match_event False)]
   \<and> Batch (the (BatchWrite (fst (state_of (HandleMessage demo_env demo_synced
        (demo_book100\<lparr>Sequence := 101\<rparr>) (demo_header ''match'' 101) (Some demo_match) 5)))
        ''BTC-USD'')) = []"
proof -
  have h: "dbEnabled demo_synced"
    "BatchWrite demo_synced (ID (demo_book100\<lparr>Sequence := 101\<rparr>)) = Some demo_batch"
    by (simp_all add: demo_defs demo_defs2)
  note T = match_trade_written_first [OF h, where E = demo_env
      and header = "demo_header ''match'' 101" and data = demo_match and now = 5]
  show ?thesis
    using T h by (simp add: demo_defs demo_defs2 model_defs payloads_def)
qed

text \<open>
  The claim as stated fails for a change message on the resting order A: the synthetic
  match appends a (change-derived) trade to the book's trade log, the handler returns,
  and nothing is written to the store.
\<close>

theorem change_trade_not_written:
  "dbEnabled demo_synced
   \<and> Trades (snd (state_of (HandleMessage demo_env demo_synced (demo_book100\<lparr>Sequence := 101\<rparr>)
        (demo_header ''change'' 101) (Some demo_change) 5)))
       = [\<lparr>Event = demo_change_event, ChangeDerived = True\<rparr>]
   \<and> DB (fst (state_of (HandleMessage demo_env demo_synced (demo_book100\<lparr>Sequence := 101\<rparr>)
        (demo_header ''change'' 101) (Some demo_change) 5))) = []
   \<and> \<not> panicked (HandleMessage demo_env demo_synced (demo_book100\<lparr>Sequence := 101\<rparr>)
        (demo_header ''change'' 101) (Some demo_change) 5)"
  by (simp add: demo_defs demo_defs2 model_defs)

section \<open>Loading a snapshot\<close>

lemma call_Add_pair:
  "call_Add (c, b) x = (c\<lparr>Trace := Trace c @ [E_Add (ID b) x]\<rparr>, book_Add b x)"
  by (simp add: call_Add_def)

lemma foldl_call_Add:
  "foldl call_Add (c, b) os
     = (c\<lparr>Trace := Trace c @ map (E_Add (ID b)) os\<rparr>, foldl book_Add b os)"
proof (induction os arbitrary: c b)
  case Nil
  then show ?case by simp
next
  case (Cons x os)
  have "foldl call_Add (c, b) (x # os)
          = foldl call_Add (c\<lparr>Trace := Trace c @ [E_Add (ID b) x]\<rparr>, book_Add b x) os"
    by (simp add: call_Add_pair)
  then show ?case by (simp add: Cons.IH)
qed

lemma foldl_book_Add_frame [simp]:
  "ID (foldl book_Add b os) = ID b" "Sequence (foldl book_Add b os) = Sequence b"
  "DatabaseKey (foldl book_Add b os) = DatabaseKey b" "Trades (foldl book_Add b os) = Trades b"
  by (induction os arbitrary: b) simp_all

lemma book_Add_fresh:
  "OrderID x \<notin> OrderID ` set (Orders b) \<Longrightarrow> Orders (book_Add b x) = Orders b @ [x]"
proof -
  assume "OrderID x \<notin> OrderID ` set (Orders b)"
  then have "find (\<lambda>y. OrderID y = OrderID x) (Orders b) = None"
    by (force simp: find_None_iff image_iff)
  then show ?thesis by (simp add: book_Add_def OrderMap_def)
qed

lemma foldl_book_Add_distinct:
  "distinct (map OrderID (Orders b @ os)) \<Longrightarrow> Orders (foldl book_Add b os) = Orders b @ os"
proof (induction os arbitrary: b)
  case Nil
  then show ?case by simp
next
  case (Cons x os)
  from Cons.prems have fresh: "OrderID x \<notin> OrderID ` set (Orders b)" by auto
  then have o: "Orders (book_Add b x) = Orders b @ [x]" by (rule book_Add_fresh)
  from Cons.prems have "distinct (map OrderID (Orders (book_Add b x) @ os))"
    by (simp add: o)
  from Cons.IH [OF this] show ?case by (simp add: o)
qed

lemma load_side_Ok:
  "n \<le> length xs \<Longrightarrow> those (map (entry_order E side) (rev (take n xs))) = Some os
     \<Longrightarrow> load_side E side xs n st = Ok (foldl call_Add st os)"
proof (induction n arbitrary: st os)
  case 0
  then show ?case by simp
next
  case (Suc i)
  then have i: "i < length xs" by simp
  then have tk: "rev (take (Suc i) xs) = xs ! i # rev (take i xs)"
    by (simp add: take_Suc_conv_app_nth)
  from Suc.prems(2) obtain x os' where x: "entry_order E side (xs ! i) = Some x"
    and os': "those (map (entry_order E side) (rev (take i xs))) = Some os'"
    and os: "os = x # os'"
    unfolding tk by (auto split: option.splits)
  from i have "i \<le> length xs" by simp
  from Suc.IH [OF this os', of "call_Add st x"] show ?case
    by (simp add: x os)
qed

lemma load_side_state:
  "\<exists>os. state_of (load_side E side xs n st) = foldl call_Add st os"
proof (induction n arbitrary: st)
  case 0
  have "state_of (load_side E side xs 0 st) = foldl call_Add st []" by simp
  then show ?case by blast
next
  case (Suc i)
  show ?case
  proof (cases "entry_order E side (xs ! i)")
    case None
    then have "state_of (load_side E side xs (Suc i) st) = foldl call_Add st []" by simp
    then show ?thesis by blast
  next
    case (Some x)
    from Suc.IH [of "call_Add st x"] obtain os
      where "state_of (load_side E side xs i (call_Add st x)) = foldl call_Add (call_Add st x) os"
      by blast
    with Some have "state_of (load_side E side xs (Suc i) st) = foldl call_Add st (x # os)"
      by simp
    then show ?thesis by blast
  qed
qed

lemma load_key_state:
  "\<exists>os. state_of (load_key E full key side st) = foldl call_Add st os"
proof (cases "map_of full key")
  case None
  then have "state_of (load_key E full key side st) = foldl call_Add st []"
    by (simp add: load_key_def)
  then show ?thesis by blast
next
  case (Some v)
  show ?thesis
  proof (cases v)
    case (JArray xs)
    with Some load_side_state [of E side xs "length xs" st] show ?thesis
      by (simp add: load_key_def)
  qed (use Some in \<open>auto simp: load_key_def intro: exI [of _ "[]"]\<close>)
qed

lemma map_of_tagged [simp]:
  "k \<noteq> ''type'' \<Longrightarrow> map_of (AList.update ''type'' v full) k = map_of full k"
  by (simp add: update_conv')

text \<open>
  C7. For a fetched snapshot with a numeric \<^verbatim>\<open>sequence\<close> whose \<^verbatim>\<open>bids\<close> and \<^verbatim>\<open>asks\<close> are
  arrays of well-formed entries, \<^verbatim>\<open>SyncBook\<close> returns nil and the calls it makes are, in
  this order: the snapshot write, \<^verbatim>\<open>Clear\<close>, the assignment of the sequence, one \<^verbatim>\<open>Add\<close>
  per bid taken from the last entry of the list to the first, then one \<^verbatim>\<open>Add\<close> per ask
  taken from the last entry to the first. The book that results is the cleared book
  with the snapshot's sequence after these insertions; when the snapshot's order ids
  are distinct, its orders are the reversed bids followed by the reversed asks.
\<close>

theorem sync_insertion_order:
  assumes fetch: "FetchRawBook reply = Inr full"
    and seq: "map_of full ''sequence'' = Some (JNumber x)"
    and bids: "map_of full ''bids'' = Some (JArray bids)"
    and asks: "map_of full ''asks'' = Some (JArray asks)"
    and bos: "those (map (entry_order E ''buy'') (rev bids)) = Some bos"
    and aos: "those (map (entry_order E ''sell'') (rev asks)) = Some aos"
  shows "(\<exists>c'. SyncBook E book c reply now
            = Ok (None, (c', foldl book_Add (foldl book_Add
                               ((book_Clear book)\<lparr>Sequence := uint64 E x\<rparr>) bos) aos))
          \<and> Trace c' = Trace c @
              [E_WriteDB (DatabaseKey book) (AList.update ''type'' (JString ''sync'') full),
               E_Clear (ID book), E_SetSequence (ID book) (uint64 E x)]
              @ map (E_Add (ID book)) bos @ map (E_Add (ID book)) aos)
       \<and> (distinct (map OrderID (bos @ aos)) \<longrightarrow>
            Orders (snd (snd (state_of (SyncBook E book c reply now)))) = bos @ aos)"
proof -
  let ?full = "AList.update ''type'' (JString ''sync'') full"
  let ?c1 = "WriteDB c book ?full now"
  let ?st3 = "set_Sequence (call_Clear (?c1, book)) (uint64 E x)"
  let ?b3 = "(book_Clear book)\<lparr>Sequence := uint64 E x\<rparr>"
  have st3: "?st3 = (?c1\<lparr>Trace := Trace ?c1 @ [E_Clear (ID book), E_SetSequence (ID book) (uint64 E x)]\<rparr>, ?b3)"
    by (simp add: call_Clear_def set_Sequence_def)
  have lb: "load_key E ?full ''bids'' ''buy'' ?st3 = Ok (foldl call_Add ?st3 bos)"
    using bids bos by (simp add: load_key_def load_side_Ok)
  have la: "load_key E ?full ''asks'' ''sell'' (foldl call_Add ?st3 bos)
              = Ok (foldl call_Add (foldl call_Add ?st3 bos) aos)"
    using asks aos by (simp add: load_key_def load_side_Ok)
  have sb: "SyncBook E book c reply now = Ok (None, foldl call_Add (foldl call_Add ?st3 bos) aos)"
    using fetch seq lb la by (simp add: SyncBook_def Let_def)
  have fin: "foldl call_Add (foldl call_Add ?st3 bos) aos
      = (?c1\<lparr>Trace := Trace ?c1 @ [E_Clear (ID book), E_SetSequence (ID book) (uint64 E x)]
                 @ map (E_Add (ID book)) bos @ map (E_Add (ID book)) aos\<rparr>,
         foldl book_Add (foldl book_Add ?b3 bos) aos)"
    by (simp add: st3 foldl_call_Add)
  have tr: "Trace ?c1 = Trace c @ [E_WriteDB (DatabaseKey book) ?full]"
    by (simp add: WriteDB_def)
  have part1: "\<exists>c'. SyncBook E book c reply now
            = Ok (None, (c', foldl book_Add (foldl book_Add ?b3 bos) aos))
          \<and> Trace c' = Trace c @
              [E_WriteDB (DatabaseKey book) ?full,
               E_Clear (ID book), E_SetSequence (ID book) (uint64 E x)]
              @ map (E_Add (ID book)) bos @ map (E_Add (ID book)) aos"
    unfolding sb fin by (simp add: tr)
  have part2: "distinct (map OrderID (bos @ aos)) \<longrightarrow>
            Orders (snd (snd (state_of (SyncBook E book c reply now)))) = bos @ aos"
  proof
    assume d: "distinct (map OrderID (bos @ aos))"
    have e: "Orders ?b3 = []" by simp
    from d have "distinct (map OrderID (Orders ?b3 @ (bos @ aos)))" by (simp add: e)
    from foldl_book_Add_distinct [OF this]
    have "Orders (foldl book_Add ?b3 (bos @ aos)) = bos @ aos" by (simp add: e)
    then show "Orders (snd (snd (state_of (SyncBook E book c reply now)))) = bos @ aos"
      unfolding sb fin by simp
  qed
  from part1 part2 show ?thesis by blast
qed

theorem sync_insertion_order_witness:
  "FetchRawBook (BodyRead (Inr demo_snapshot)) = Inr demo_snapshot
   \<and> those (map (entry_order demo_env ''buy'')
        (rev [JArray [JString ''10.00'', JString ''2'', JString ''A''],
              JArray [JString ''9.50'', JString ''1'', JString ''B'']]))
       = Some [\<lparr>OrderID = ''B'', Side = ''buy'', Price = 19 / 2, Size = 1\<rparr>,
               \<lparr>OrderID = ''A'', Side = ''buy'', Price = 10, Size = 2\<rparr>]
   \<and> Orders (snd (snd (state_of (SyncBook demo_env
        (orderbook_New ''BTC-USD'' ''gdax-BTC-USD'') demo_client
        (BodyRead (Inr demo_snapshot)) 5))))
       = [\<lparr>OrderID = ''B'', Side = ''buy'', Price = 19 / 2, Size = 1\<rparr>,
          \<lparr>OrderID = ''A'', Side = ''buy'', Price = 10, Size = 2\<rparr>,
          \<lparr>OrderID = ''C'', Side = ''sell'', Price = 21 / 2, Size = 3\<rparr>]
   \<and> snd (snd (state_of (SyncBook demo_env
        (orderbook_New ''BTC-USD'' ''gdax-BTC-USD'') demo_client
        (BodyRead (Inr demo_snapshot)) 5))) = demo_book100"
proof -
  let ?bids = "[JArray [JString ''10.00'', JString ''2'', JString ''A''],
                JArray [JString ''9.50'', JString ''1'', JString ''B'']] :: rat json list"
  let ?asks = "[JArray [JString ''10.50'', JString ''3'', JString ''C'']] :: rat json list"
  let ?bos = "[\<lparr>OrderID = ''B'', Side = ''buy'', Price = 19 / 2, Size = 1\<rparr>,
               \<lparr>OrderID = ''A'', Side = ''buy'', Price = 10, Size = (2::rat)\<rparr>]"
  let ?aos = "[\<lparr>OrderID = ''C'', Side = ''sell'', Price = 21 / 2, Size = (3::rat)\<rparr>]"
  have f: "FetchRawBook (BodyRead (Inr demo_snapshot)) = Inr demo_snapshot"
    by (simp add: FetchRawBook_def)
  have s: "map_of demo_snapshot ''sequence'' = Some (JNumber 100)"
    "map_of demo_snapshot ''bids'' = Some (JArray ?bids)"
    "map_of demo_snapshot ''asks'' = Some (JArray ?asks)"
    by (simp_all add: demo_snapshot_def)
  have b: "those (map (entry_order demo_env ''buy'') (rev ?bids)) = Some ?bos"
    by (simp add: entry_order_def nth_opt_def as_string_def demo_env_def parse_decimal_def
        is_digit_def)
  have a: "those (map (entry_order demo_env ''sell'') (rev ?asks)) = Some ?aos"
    by (simp add: entry_order_def nth_opt_def as_string_def demo_env_def parse_decimal_def
        is_digit_def)
  have d: "distinct (map OrderID (?bos @ ?aos))" by simp
  note T = sync_insertion_order [OF f s b a,
      where book = "orderbook_New ''BTC-USD'' ''gdax-BTC-USD''" and c = demo_client and now = 5]
  from T d have o: "Orders (snd (snd (state_of (SyncBook demo_env
        (orderbook_New ''BTC-USD'' ''gdax-BTC-USD'') demo_client
        (BodyRead (Inr demo_snapshot)) 5)))) = ?bos @ ?aos"
    by blast
  from T have "snd (snd (state_of (SyncBook demo_env
        (orderbook_New ''BTC-USD'' ''gdax-BTC-USD'') demo_client
        (BodyRead (Inr demo_snapshot)) 5)))
      = foldl book_Add (foldl book_Add
          ((book_Clear (orderbook_New ''BTC-USD'' ''gdax-BTC-USD''))\<lparr>Sequence := uint64 demo_env 100\<rparr>)
          ?bos) ?aos"
    by auto
  also have "\<dots> = demo_book100"
    by (simp add: demo_defs book_Add_def book_Clear_def OrderMap_def diff_note_def)
  finally show ?thesis using f b o by simp
qed

lemma list_all_book_effect_Add [simp]: "list_all is_book_effect (map (E_Add i) os)"
  by (induction os) simp_all

lemma SyncBook_cases:
  "(\<exists>err. FetchRawBook reply = Inl err
        \<and> SyncBook E book c reply now = Ok (Some err, (c, book)))
   \<or> (\<exists>full. FetchRawBook reply = Inr full \<and> map_of full ''sequence'' = None
        \<and> SyncBook E book c reply now = Ok (None, (c, book)))
   \<or> (\<exists>full seq rest b'. FetchRawBook reply = Inr full \<and> map_of full ''sequence'' = Some seq
        \<and> (SyncBook E book c reply now
              = Ok (None, ((WriteDB c book (tag_sync full) now)
                            \<lparr>Trace := Trace (WriteDB c book (tag_sync full) now) @ rest\<rparr>, b'))
           \<or> SyncBook E book c reply now
              = Panic (None, ((WriteDB c book (tag_sync full) now)
                            \<lparr>Trace := Trace (WriteDB c book (tag_sync full) now) @ rest\<rparr>, b')))
        \<and> list_all is_book_effect rest \<and> ID b' = ID book)"
proof (cases "FetchRawBook reply")
  case (Inl err)
  then show ?thesis by (simp add: SyncBook_def)
next
  case (Inr full)
  show ?thesis
  proof (cases "map_of full ''sequence''")
    case None
    with Inr show ?thesis by (simp add: SyncBook_def)
  next
    case (Some seq)
    let ?c1 = "WriteDB c book (tag_sync full) now"
    let ?st2 = "call_Clear (?c1, book)"
    have st2: "?st2 = (?c1\<lparr>Trace := Trace ?c1 @ [E_Clear (ID book)]\<rparr>, book_Clear book)"
      by (simp add: call_Clear_def)
    show ?thesis
    proof (cases "\<exists>x. seq = JNumber x")
      case False
      then have "SyncBook E book c reply now = Panic (None, ?st2)"
        using Inr Some by (cases seq) (simp_all add: SyncBook_def Let_def tag_sync_def)
      then have "SyncBook E book c reply now
          = Panic (None, (?c1\<lparr>Trace := Trace ?c1 @ [E_Clear (ID book)]\<rparr>, book_Clear book))"
        by (simp add: st2)
      moreover have "list_all is_book_effect [E_Clear (ID book)]" by simp
      moreover have "ID (book_Clear book) = ID book" by simp
      ultimately show ?thesis using Inr Some by blast
    next
      case True
      then obtain x where x: "seq = JNumber x" by blast
      let ?b3 = "(book_Clear book)\<lparr>Sequence := uint64 E x\<rparr>"
      let ?pre = "[E_Clear (ID book), E_SetSequence (ID book) (uint64 E x)]"
      let ?st3 = "set_Sequence ?st2 (uint64 E x)"
      have st3: "?st3 = (?c1\<lparr>Trace := Trace ?c1 @ ?pre\<rparr>, ?b3)"
        by (simp add: st2 set_Sequence_def)
      obtain os1 where os1: "state_of (load_key E (tag_sync full) ''bids'' ''buy'' ?st3)
                               = foldl call_Add ?st3 os1"
        using load_key_state by blast
      let ?st4 = "foldl call_Add ?st3 os1"
      have st4: "?st4 = (?c1\<lparr>Trace := Trace ?c1 @ (?pre @ map (E_Add (ID book)) os1)\<rparr>,
                         foldl book_Add ?b3 os1)"
        by (simp add: st3 foldl_call_Add)
      obtain os2 where os2: "state_of (load_key E (tag_sync full) ''asks'' ''sell'' ?st4)
                               = foldl call_Add ?st4 os2"
        using load_key_state by blast
      let ?st5 = "foldl call_Add ?st4 os2"
      have st5: "?st5 = (?c1\<lparr>Trace := Trace ?c1 @ (?pre @ map (E_Add (ID book)) os1
                                   @ map (E_Add (ID book)) os2)\<rparr>,
                         foldl book_Add (foldl book_Add ?b3 os1) os2)"
        by (simp add: st4 foldl_call_Add)
      have e4: "list_all is_book_effect (?pre @ map (E_Add (ID book)) os1)" by simp
      have e5: "list_all is_book_effect
                  (?pre @ map (E_Add (ID book)) os1 @ map (E_Add (ID book)) os2)" by simp
      have i4: "ID (foldl book_Add ?b3 os1) = ID book" by simp
      have i5: "ID (foldl book_Add (foldl book_Add ?b3 os1) os2) = ID book" by simp
      show ?thesis
      proof (cases "load_key E (tag_sync full) ''bids'' ''buy'' ?st3")
        case (Panic s4)
        with os1 have "s4 = ?st4" by simp
        with Panic have "SyncBook E book c reply now = Panic (None, ?st4)"
          using Inr Some x by (simp add: SyncBook_def Let_def tag_sync_def)
        then show ?thesis using Inr Some e4 i4 unfolding st4 by blast
      next
        case (Ok s4)
        with os1 have s4: "s4 = ?st4" by simp
        show ?thesis
        proof (cases "load_key E (tag_sync full) ''asks'' ''sell'' ?st4")
          case (Panic s5)
          with os2 have "s5 = ?st5" by simp
          with Panic Ok s4 have "SyncBook E book c reply now = Panic (None, ?st5)"
            using Inr Some x by (simp add: SyncBook_def Let_def tag_sync_def)
          then show ?thesis using Inr Some e5 i5 unfolding st5 by blast
        next
          case Ok2: (Ok s5)
          with os2 have "s5 = ?st5" by simp
          with Ok2 Ok s4 have "SyncBook E book c reply now = Ok (None, ?st5)"
            using Inr Some x by (simp add: SyncBook_def Let_def tag_sync_def)
          then show ?thesis using Inr Some e5 i5 unfolding st5 by blast
        qed
      qed
    qed
  qed
qed

section \<open>The snapshot write comes first\<close>

lemma WriteDB_fields [simp]:
  "Trace (WriteDB c book full now) = Trace c @ [E_WriteDB (DatabaseKey book) full]"
  "DB (WriteDB c book full now)
     = (if dbEnabled c then DB c @ [(DatabaseKey book, now, RawSync full)] else DB c)"
  "Books (WriteDB c book full now) = Books c"
  "BatchWrite (WriteDB c book full now) = BatchWrite c"
  "dbEnabled (WriteDB c book full now) = dbEnabled c"
  by (simp_all add: WriteDB_def)

lemma SyncBook_outcome:
  "(snd (state_of (SyncBook E book c reply now)) = (c, book)
      \<and> (\<forall>full. FetchRawBook reply = Inr full \<longrightarrow> map_of full ''sequence'' = None))
   \<or> (\<exists>full seq rest b'. FetchRawBook reply = Inr full \<and> map_of full ''sequence'' = Some seq
        \<and> snd (state_of (SyncBook E book c reply now))
            = ((WriteDB c book (tag_sync full) now)
                 \<lparr>Trace := Trace c @ E_WriteDB (DatabaseKey book) (tag_sync full) # rest\<rparr>, b')
        \<and> list_all is_book_effect rest \<and> ID b' = ID book)"
proof -
  consider
    (a) err where "FetchRawBook reply = Inl err"
        "SyncBook E book c reply now = Ok (Some err, (c, book))"
  | (b) full where "FetchRawBook reply = Inr full" "map_of full ''sequence'' = None"
        "SyncBook E book c reply now = Ok (None, (c, book))"
  | (c) full seq rest b' where "FetchRawBook reply = Inr full"
        "map_of full ''sequence'' = Some seq"
        "SyncBook E book c reply now
              = Ok (None, ((WriteDB c book (tag_sync full) now)
                            \<lparr>Trace := Trace (WriteDB c book (tag_sync full) now) @ rest\<rparr>, b'))
           \<or> SyncBook E book c reply now
              = Panic (None, ((WriteDB c book (tag_sync full) now)
                            \<lparr>Trace := Trace (WriteDB c book (tag_sync full) now) @ rest\<rparr>, b'))"
        "list_all is_book_effect rest" "ID b' = ID book"
    using SyncBook_cases [of reply E book c now] by blast
  then show ?thesis
  proof cases
    case a
    then show ?thesis by simp
  next
    case b
    then show ?thesis by simp
  next
    case c
    from c(3) have "snd (state_of (SyncBook E book c reply now))
            = ((WriteDB c book (tag_sync full) now)
                 \<lparr>Trace := Trace c @ E_WriteDB (DatabaseKey book) (tag_sync full) # rest\<rparr>, b')"
      by (elim disjE) simp_all
    with c(1,2,4,5) show ?thesis by blast
  qed
qed

text \<open>
  C3. Whenever the fetched snapshot has a \<^verbatim>\<open>sequence\<close>, the first effect of \<^verbatim>\<open>SyncBook\<close>
  is the write of the snapshot tagged as a sync record, and everything that follows,
  whether the function returns or panics on the way, is a mutation of the book
  (\<^verbatim>\<open>Clear\<close>, the assignment of the sequence, the \<^verbatim>\<open>Add\<close>s); with a store the record is in
  it at the end. Conversely a run of \<^verbatim>\<open>SyncBook\<close> that leaves client or book different
  from what they were has made that write before anything else.
\<close>

theorem snapshot_persisted_first:
  "(FetchRawBook reply = Inr full \<and> map_of full ''sequence'' = Some seq \<longrightarrow>
      (\<exists>rest. Trace (fst (snd (state_of (SyncBook E book c reply now))))
                = Trace c @ E_WriteDB (DatabaseKey book) (tag_sync full) # rest
             \<and> list_all is_book_effect rest)
      \<and> (dbEnabled c \<longrightarrow>
           DB (fst (snd (state_of (SyncBook E book c reply now))))
             = DB c @ [(DatabaseKey book, now, RawSync (tag_sync full))]))
   \<and> (snd (state_of (SyncBook E book c reply now)) \<noteq> (c, book) \<longrightarrow>
      (\<exists>full rest. FetchRawBook reply = Inr full
             \<and> Trace (fst (snd (state_of (SyncBook E book c reply now))))
                = Trace c @ E_WriteDB (DatabaseKey book) (tag_sync full) # rest
             \<and> list_all is_book_effect rest))"
proof -
  let ?s = "snd (state_of (SyncBook E book c reply now))"
  consider
    (idle) "?s = (c, book)"
           "\<forall>full. FetchRawBook reply = Inr full \<longrightarrow> map_of full ''sequence'' = None"
  | (sync) full' seq' rest b' where "FetchRawBook reply = Inr full'"
           "map_of full' ''sequence'' = Some seq'"
           "?s = ((WriteDB c book (tag_sync full') now)
                    \<lparr>Trace := Trace c @ E_WriteDB (DatabaseKey book) (tag_sync full') # rest\<rparr>, b')"
           "list_all is_book_effect rest"
    using SyncBook_outcome [of E book c reply now] by blast
  then show ?thesis
  proof cases
    case idle
    then show ?thesis by simp
  next
    case sync
    have tr: "Trace (fst ?s) = Trace c @ E_WriteDB (DatabaseKey book) (tag_sync full') # rest"
      by (simp add: sync(3))
    have db: "DB (fst ?s) = (if dbEnabled c
                then DB c @ [(DatabaseKey book, now, RawSync (tag_sync full'))] else DB c)"
      by (simp add: sync(3))
    have first: "FetchRawBook reply = Inr full \<and> map_of full ''sequence'' = Some seq \<longrightarrow>
      (\<exists>rest. Trace (fst ?s) = Trace c @ E_WriteDB (DatabaseKey book) (tag_sync full) # rest
             \<and> list_all is_book_effect rest)
      \<and> (dbEnabled c \<longrightarrow>
           DB (fst ?s) = DB c @ [(DatabaseKey book, now, RawSync (tag_sync full))])"
    proof
      assume "FetchRawBook reply = Inr full \<and> map_of full ''sequence'' = Some seq"
      with sync(1) have "full = full'" by simp
      with tr db sync(4) show "(\<exists>rest. Trace (fst ?s)
                = Trace c @ E_WriteDB (DatabaseKey book) (tag_sync full) # rest
             \<and> list_all is_book_effect rest)
        \<and> (dbEnabled c \<longrightarrow>
           DB (fst ?s) = DB c @ [(DatabaseKey book, now, RawSync (tag_sync full))])"
        by auto
    qed
    have second: "\<exists>full rest. FetchRawBook reply = Inr full
             \<and> Trace (fst ?s) = Trace c @ E_WriteDB (DatabaseKey book) (tag_sync full) # rest
             \<and> list_all is_book_effect rest"
      using sync(1,4) tr by blast
    from first second show ?thesis by blast
  qed
qed

lemma demo_sync_book:
  "snd (snd (state_of (SyncBook demo_env demo_new_book demo_client
       (BodyRead (Inr demo_snapshot)) 5))) = demo_book100"
  by (simp add: demo_new_book_def demo_defs model_defs)

lemma demo_sync_trace:
  "Trace (fst (snd (state_of (SyncBook demo_env demo_new_book demo_client
       (BodyRead (Inr demo_snapshot)) 5))))
     = [E_WriteDB ''gdax-BTC-USD'' (tag_sync demo_snapshot),
        E_Clear ''BTC-USD'', E_SetSequence ''BTC-USD'' 100,
        E_Add ''BTC-USD'' \<lparr>OrderID = ''B'', Side = ''buy'', Price = 19 / 2, Size = 1\<rparr>,
        E_Add ''BTC-USD'' \<lparr>OrderID = ''A'', Side = ''buy'', Price = 10, Size = 2\<rparr>,
        E_Add ''BTC-USD'' \<lparr>OrderID = ''C'', Side = ''sell'', Price = 21 / 2, Size = 3\<rparr>]"
  by (simp add: demo_new_book_def demo_defs model_defs tag_sync_def)

theorem snapshot_persisted_first_witness:
  "FetchRawBook (BodyRead (Inr demo_snapshot)) = Inr demo_snapshot
   \<and> map_of demo_snapshot ''sequence'' = Some (JNumber 100)
   \<and> dbEnabled demo_client
   \<and> DB (fst (snd (state_of (SyncBook demo_env demo_new_book demo_client
        (BodyRead (Inr demo_snapshot)) 5))))
       = [(''gdax-BTC-USD'', 5, RawSync (tag_sync demo_snapshot))]
   \<and> Trace (fst (snd (state_of (SyncBook demo_env demo_new_book demo_client
        (BodyRead (Inr demo_snapshot)) 5))))
       = [E_WriteDB ''gdax-BTC-USD'' (tag_sync demo_snapshot),
          E_Clear ''BTC-USD'', E_SetSequence ''BTC-USD'' 100,
          E_Add ''BTC-USD'' \<lparr>OrderID = ''B'', Side = ''buy'', Price = 19 / 2, Size = 1\<rparr>,
          E_Add ''BTC-USD'' \<lparr>OrderID = ''A'', Side = ''buy'', Price = 10, Size = 2\<rparr>,
          E_Add ''BTC-USD'' \<lparr>OrderID = ''C'', Side = ''sell'', Price = 21 / 2, Size = 3\<rparr>]
   \<and> snd (snd (state_of (SyncBook demo_env demo_new_book demo_client
        (BodyRead (Inr demo_snapshot)) 5))) = demo_book100"
proof -
  have f: "FetchRawBook (BodyRead (Inr demo_snapshot)) = Inr demo_snapshot
           \<and> map_of demo_snapshot ''sequence'' = Some (JNumber 100)"
    by (simp add: FetchRawBook_def demo_snapshot_def)
  have e: "dbEnabled demo_client" by (simp add: demo_defs)
  have d: "DB demo_client = []" by (simp add: demo_defs)
  have k: "DatabaseKey demo_new_book = ''gdax-BTC-USD''"
    by (simp add: demo_new_book_def orderbook_New_def)
  note T = snapshot_persisted_first [where reply = "BodyRead (Inr demo_snapshot)"
      and full = demo_snapshot and seq = "JNumber 100" and E = demo_env
      and book = demo_new_book and c = demo_client and now = 5]
  from T f e have "DB (fst (snd (state_of (SyncBook demo_env demo_new_book demo_client
        (BodyRead (Inr demo_snapshot)) 5))))
       = DB demo_client @ [(DatabaseKey demo_new_book, 5, RawSync (tag_sync demo_snapshot))]"
    by blast
  then have db: "DB (fst (snd (state_of (SyncBook demo_env demo_new_book demo_client
        (BodyRead (Inr demo_snapshot)) 5))))
       = [(''gdax-BTC-USD'', 5, RawSync (tag_sync demo_snapshot))]"
    by (simp only: d k append_Nil)
  from f e db demo_sync_trace demo_sync_book show ?thesis by blast
qed

section \<open>A failed fetch\<close>

lemma SyncBook_Books:
  "Books (fst (snd (state_of (SyncBook E book c reply now)))) = Books c"
proof -
  let ?s = "snd (state_of (SyncBook E book c reply now))"
  consider (idle) "?s = (c, book)"
    | (sync) full rest b' where
        "?s = ((WriteDB c book (tag_sync full) now)
                 \<lparr>Trace := Trace c @ E_WriteDB (DatabaseKey book) (tag_sync full) # rest\<rparr>, b')"
    using SyncBook_outcome [of E book c reply now] by blast
  then show ?thesis
  proof cases
    case idle
    then show ?thesis by simp
  next
    case sync
    then show ?thesis by simp
  qed
qed

lemma persist_Books: "Books (fst (state_of (persist E (c, book) tr now))) = Books c"
  by (simp add: persist_def Let_def NextSync_def NextDiff_def WriteDiff_def WriteSync_def
      call_ResetDiff_def store_batch_def batch_Write_def split: option.splits)

lemma HandleMessage_Books:
  "Books (fst (state_of (HandleMessage E c b h body now))) = Books c"
proof -
  let ?d = "case body of None \<Rightarrow> [] | Some d \<Rightarrow> d"
  let ?r = "apply_message E (c, b) h ?d"
  have a: "Books (fst (fst (state_of ?r))) = Books c"
    using apply_message_client(4) [of E "(c, b)" h ?d] by simp
  show ?thesis
  proof (cases ?r)
    case (Ok x)
    obtain c1 b1 tr where x: "x = ((c1, b1), tr)" by (metis prod.collapse)
    with Ok a have "Books c1 = Books c" by simp
    with Ok x persist_Books [of E c1 b1 tr now] show ?thesis
      by (simp add: HandleMessage_def)
  next
    case (Panic x)
    obtain c1 b1 tr where x: "x = ((c1, b1), tr)" by (metis prod.collapse)
    with Panic a show ?thesis by (simp add: HandleMessage_def)
  qed
qed

lemma put_book_other [simp]: "p \<noteq> q \<Longrightarrow> Books (put_book q st) p = Books (fst st) p"
  by (cases st) (simp add: put_book_def)

lemma handle_other:
  "p \<noteq> q \<Longrightarrow>
     Books (client_of (case HandleMessage E c b h body n of
                         Ok st \<Rightarrow> Continue (put_book q st)
                       | Panic st \<Rightarrow> Crashed (put_book q st))) p = Books c p"
  using HandleMessage_Books [of E c b h body n]
  by (cases "HandleMessage E c b h body n") auto

lemma resync_other:
  "p \<noteq> q \<Longrightarrow> Books (client_of (resync E c q book t)) p = Books c p"
proof -
  assume ne: "p \<noteq> q"
  let ?r = "SyncBook E book c (Rest t) (Now t)"
  have b: "Books (fst (snd (state_of ?r))) = Books c" by (rule SyncBook_Books)
  show ?thesis
  proof (cases ?r)
    case (Ok x)
    with b ne show ?thesis by (cases x) (simp add: resync_def)
  next
    case (Panic x)
    with b ne show ?thesis by (cases x) (simp add: resync_def)
  qed
qed

lemma resync_fails:
  assumes "fetch_fails (Rest t)" and "Books c p = Some book"
  shows "Books (client_of (resync E c p book t)) p = Some book"
proof -
  from assms(1) obtain err where "FetchRawBook (Rest t) = Inl err"
    by (cases "FetchRawBook (Rest t)") (simp_all add: fetch_fails_def)
  then have "SyncBook E book c (Rest t) (Now t) = Ok (Some err, (c, book))"
    by (simp add: SyncBook_def)
  then show ?thesis by (simp add: resync_def)
qed

lemma run_step_unsynced:
  assumes b: "Books c p = Some book" and z: "Sequence book = 0"
    and f: "fetch_fails (Rest t)"
  shows "Books (client_of (run_step E c t)) p = Some book"
proof (cases "Incoming t")
  case (ReadFailed e)
  with b show ?thesis by (simp add: run_step_def)
next
  case NonText
  with b show ?thesis by (simp add: run_step_def)
next
  case (TextMessage hdr body)
  show ?thesis
  proof (cases hdr)
    case None
    with TextMessage b show ?thesis by (simp add: run_step_def)
  next
    case (Some header)
    show ?thesis
    proof (cases "ProductID header = p")
      case True
      with TextMessage Some b z resync_fails [OF f b, of E] show ?thesis
        by (simp add: run_step_def)
    next
      case False
      then have ne: "p \<noteq> ProductID header" by blast
      show ?thesis
      proof (cases "Books c (ProductID header)")
        case None
        with TextMessage \<open>hdr = Some header\<close> b show ?thesis by (simp add: run_step_def)
      next
        case other: (Some other)
        from TextMessage \<open>hdr = Some header\<close> other b show ?thesis
          by (simp add: run_step_def handle_other [OF ne] resync_other [OF ne])
      qed
    qed
  qed
qed

lemma run_loop_unsynced:
  "Books c p = Some book \<Longrightarrow> Sequence book = 0 \<Longrightarrow> list_all (\<lambda>t. fetch_fails (Rest t)) ts
     \<Longrightarrow> Books (client_of (run_loop E c ts)) p = Some book"
proof (induction ts arbitrary: c)
  case Nil
  then show ?case by simp
next
  case (Cons t ts)
  from Cons.prems have f: "fetch_fails (Rest t)" and fs: "list_all (\<lambda>t. fetch_fails (Rest t)) ts"
    by simp_all
  have s: "Books (client_of (run_step E c t)) p = Some book"
    using run_step_unsynced [OF Cons.prems(1,2) f] .
  show ?case
  proof (cases "run_step E c t")
    case (Continue c1)
    with s have "Books c1 p = Some book" by simp
    from Cons.IH [OF this Cons.prems(2) fs] Continue show ?thesis by simp
  next
    case (Returned c1)
    with s show ?thesis by simp
  next
    case (Crashed c1)
    with s show ?thesis by simp
  qed
qed

lemma SyncBook_error_only_fetch:
  "SyncBook E book c reply now = Ok (Some err, st)
     \<Longrightarrow> FetchRawBook reply = Inl err \<and> st = (c, book)"
proof -
  assume r: "SyncBook E book c reply now = Ok (Some err, st)"
  consider
    (a) e where "FetchRawBook reply = Inl e"
        "SyncBook E book c reply now = Ok (Some e, (c, book))"
  | (b) s where "SyncBook E book c reply now = Ok (None, s)"
  | (c) s where "SyncBook E book c reply now = Panic (None, s)"
    using SyncBook_cases [of reply E book c now] by blast
  then show ?thesis
  proof cases
    case a
    with r show ?thesis by simp
  next
    case b
    with r show ?thesis by simp
  next
    case c
    with r show ?thesis by simp
  qed
qed

text \<open>
  C4 (as amended). When \<^verbatim>\<open>http.Get\<close>, the read of the body or the JSON decode fails,
  \<^verbatim>\<open>SyncBook\<close> returns that error and leaves client and book exactly as they were (so the
  sequence keeps its value), and it returns an error in no other case. For a book whose
  sequence is 0, as long as every fetch fails the book stays as it is through any run
  of the read loop: every message for the product is dropped.
\<close>

theorem sync_error_leaves_book:
  "(FetchRawBook reply = Inl err \<longrightarrow> SyncBook E book c reply now = Ok (Some err, (c, book)))
   \<and> (SyncBook E book c reply now = Ok (Some err, st) \<longrightarrow>
        FetchRawBook reply = Inl err \<and> st = (c, book))
   \<and> (Books c p = Some book \<and> Sequence book = 0
        \<and> list_all (\<lambda>t. fetch_fails (Rest t)) ts \<longrightarrow>
        Books (client_of (run_loop E c ts)) p = Some book)"
proof (intro conjI; rule impI)
  assume "FetchRawBook reply = Inl err"
  then show "SyncBook E book c reply now = Ok (Some err, (c, book))"
    by (simp add: SyncBook_def)
next
  assume "SyncBook E book c reply now = Ok (Some err, st)"
  then show "FetchRawBook reply = Inl err \<and> st = (c, book)"
    by (rule SyncBook_error_only_fetch)
next
  assume "Books c p = Some book \<and> Sequence book = 0
        \<and> list_all (\<lambda>t. fetch_fails (Rest t)) ts"
  then show "Books (client_of (run_loop E c ts)) p = Some book"
    by (simp add: run_loop_unsynced)
qed

theorem sync_error_leaves_book_witness:
  "FetchRawBook (GetFailed ''down'' :: rat rest_reply) = Inl ''down''
   \<and> SyncBook demo_env demo_new_book demo_client (GetFailed ''down'') 5
       = Ok (Some ''down'', (demo_client, demo_new_book))
   \<and> Books demo_client ''BTC-USD'' = Some demo_new_book
   \<and> Sequence demo_new_book = 0
   \<and> list_all (\<lambda>t. fetch_fails (Rest t)) demo_failing_ticks
   \<and> Books (client_of (run_loop demo_env demo_client demo_failing_ticks)) ''BTC-USD''
       = Some demo_new_book"
proof -
  have f: "FetchRawBook (GetFailed ''down'' :: rat rest_reply) = Inl ''down''"
    by (simp add: FetchRawBook_def)
  have b: "Books demo_client ''BTC-USD'' = Some demo_new_book \<and> Sequence demo_new_book = 0
           \<and> list_all (\<lambda>t. fetch_fails (Rest t)) demo_failing_ticks"
    by (simp add: demo_defs demo_new_book_def demo_failing_ticks_def fetch_fails_def
        FetchRawBook_def)
  note T = sync_error_leaves_book [where reply = "GetFailed ''down''" and err = "''down''"
      and E = demo_env and book = demo_new_book and c = demo_client and now = 5
      and p = "''BTC-USD''" and ts = demo_failing_ticks]
  from T f have s: "SyncBook demo_env demo_new_book demo_client (GetFailed ''down'') 5
       = Ok (Some ''down'', (demo_client, demo_new_book))"
    by blast
  from T b have r: "Books (client_of (run_loop demo_env demo_client demo_failing_ticks))
       ''BTC-USD'' = Some demo_new_book"
    by blast
  from f s b r show ?thesis by blast
qed

text \<open>
  The claim as stated fails in two ways. After a failed fetch the book of a product
  synced before keeps its sequence, here 100, not 0. And a snapshot of the wrong shape
  is not reported as an error: with a \<^verbatim>\<open>sequence\<close> that is not a number \<^verbatim>\<open>SyncBook\<close>
  panics after it has cleared the book, and with \<^verbatim>\<open>bids\<close> that is not an array it
  returns nil with the orders gone.
\<close>

theorem sync_failure_counterexample:
  "SyncBook demo_env demo_book100 demo_synced (GetFailed ''down'') 5
       = Ok (Some ''down'', (demo_synced, demo_book100))
   \<and> Sequence demo_book100 = 100
   \<and> map OrderID (Orders demo_book100) = [''B'', ''A'', ''C'']
   \<and> panicked (SyncBook demo_env demo_book100 demo_synced
        (BodyRead (Inr demo_snapshot_bad_sequence)) 5)
   \<and> Orders (snd (snd (state_of (SyncBook demo_env demo_book100 demo_synced
        (BodyRead (Inr demo_snapshot_bad_sequence)) 5)))) = []
   \<and> fst (state_of (SyncBook demo_env demo_book100 demo_synced
        (BodyRead (Inr demo_snapshot_bad_bids)) 5)) = None
   \<and> \<not> panicked (SyncBook demo_env demo_book100 demo_synced
        (BodyRead (Inr demo_snapshot_bad_bids)) 5)
   \<and> Orders (snd (snd (state_of (SyncBook demo_env demo_book100 demo_synced
        (BodyRead (Inr demo_snapshot_bad_bids)) 5)))) = []"
  by (simp add: demo_defs model_defs demo_snapshot_bad_sequence_def
      demo_snapshot_bad_bids_def)

end
